theory Spec2Isabelle
  imports Complex_Main
begin

section \<open>The ray tracer demo: floats\<close>

text \<open>
  The development embeds the rendering loops of \<^verbatim>\<open>apps/raytracerdemo/main.cpp\<close>.
  A \<^verbatim>\<open>float\<close> the program computes is a value of \<open>fl\<close>: a finite number, one of the
  two infinities, or NaN. Within the range of binary32 an operation returns the exact real
  result: rounding to 24 bits is not modelled. Outside it the result is what IEEE 754
  gives in round-to-nearest: at or beyond \<open>2^128 - 2^103\<close>, half a unit in the last
  place above the largest float, an infinity; at or below \<open>2^-150\<close> in magnitude, half
  the smallest subnormal, zero. The sign of a zero is not modelled.
\<close>

datatype fl = Fin real | PInf | NInf | NaN

definition flt_over :: real where
  "flt_over = 2 ^ 128 - 2 ^ 103"

definition flt_under :: real where
  "flt_under = 1 / 2 ^ 150"

definition fl_of :: "real \<Rightarrow> fl" where
  "fl_of r =
     (if flt_over \<le> r then PInf
      else if r \<le> - flt_over then NInf
      else if \<bar>r\<bar> \<le> flt_under then Fin 0
      else Fin r)"

fun fneg :: "fl \<Rightarrow> fl" where
  "fneg (Fin a) = Fin (- a)"
| "fneg PInf = NInf"
| "fneg NInf = PInf"
| "fneg NaN = NaN"

fun fadd :: "fl \<Rightarrow> fl \<Rightarrow> fl" where
  "fadd (Fin a) (Fin b) = fl_of (a + b)"
| "fadd NaN y = NaN"
| "fadd x NaN = NaN"
| "fadd PInf NInf = NaN"
| "fadd NInf PInf = NaN"
| "fadd PInf y = PInf"
| "fadd x PInf = PInf"
| "fadd NInf y = NInf"
| "fadd x NInf = NInf"

definition fsub :: "fl \<Rightarrow> fl \<Rightarrow> fl" where
  "fsub x y = fadd x (fneg y)"

text \<open>An infinity times a finite number: NaN at zero, else the infinity with the sign of the product.\<close>

definition inf_times :: "real \<Rightarrow> fl \<Rightarrow> fl" where
  "inf_times a i = (if a = 0 then NaN else if 0 < a then i else fneg i)"

fun fmul :: "fl \<Rightarrow> fl \<Rightarrow> fl" where
  "fmul (Fin a) (Fin b) = fl_of (a * b)"
| "fmul NaN y = NaN"
| "fmul x NaN = NaN"
| "fmul (Fin a) y = inf_times a y"
| "fmul x (Fin b) = inf_times b x"
| "fmul x y = (if x = y then PInf else NInf)"

text \<open>
  Division by \<^verbatim>\<open>float(n)\<close> for a count \<open>n\<close>. A finite number over zero is NaN when it
  is zero and an infinity otherwise.
\<close>

fun fdivn :: "fl \<Rightarrow> nat \<Rightarrow> fl" where
  "fdivn (Fin a) n =
     (if n = 0 then (if a = 0 then NaN else if 0 < a then PInf else NInf)
      else fl_of (a / real n))"
| "fdivn x n = x"

text \<open>
  \<^verbatim>\<open>pow(x, e)\<close> for a positive exponent \<open>e\<close> that is not an integer: NaN on a negative
  base, and plus infinity on either infinity.
\<close>

fun fpow :: "fl \<Rightarrow> real \<Rightarrow> fl" where
  "fpow (Fin a) e = (if a < 0 then NaN else fl_of (a powr e))"
| "fpow PInf e = PInf"
| "fpow NInf e = PInf"
| "fpow NaN e = NaN"

text \<open>The comparison \<^verbatim>\<open><\<close>, false whenever an operand is NaN.\<close>

fun fless :: "fl \<Rightarrow> fl \<Rightarrow> bool" where
  "fless (Fin a) (Fin b) = (a < b)"
| "fless NaN y = False"
| "fless x NaN = False"
| "fless x NInf = False"
| "fless PInf y = False"
| "fless x y = True"

text \<open>\<^verbatim>\<open>glm::max(x, y)\<close> is \<^verbatim>\<open>(x < y) ? y : x\<close>.\<close>

definition fmax :: "fl \<Rightarrow> fl \<Rightarrow> fl" where
  "fmax x y = (if fless x y then y else x)"

text \<open>\<^verbatim>\<open>glm::inversesqrt(x)\<close> is \<^verbatim>\<open>1 / sqrt(x)\<close>.\<close>

fun finvsqrt :: "fl \<Rightarrow> fl" where
  "finvsqrt (Fin a) = (if a < 0 then NaN else if a = 0 then PInf else fl_of (1 / sqrt a))"
| "finvsqrt PInf = Fin 0"
| "finvsqrt NInf = NaN"
| "finvsqrt NaN = NaN"

subsection \<open>Vectors and colours\<close>

text \<open>
  \<open>vec2\<close> and \<open>vec3\<close> are vectors of finite floats, as the collaborators of the loops
  hand them over; \<open>fvec2\<close>, \<open>fvec3\<close> and \<open>color\<close> are what the loops compute.
\<close>

type_synonym vec2 = "real \<times> real"
type_synonym vec3 = "real \<times> real \<times> real"
type_synonym fvec2 = "fl \<times> fl"
type_synonym fvec3 = "fl \<times> fl \<times> fl"
type_synonym color = "fl \<times> fl \<times> fl"

fun fvec_of :: "vec3 \<Rightarrow> fvec3" where
  "fvec_of (a, b, c) = (Fin a, Fin b, Fin c)"

fun fvadd :: "fvec3 \<Rightarrow> fvec3 \<Rightarrow> fvec3" where
  "fvadd (a, b, c) (d, e, f) = (fadd a d, fadd b e, fadd c f)"

fun fvsub :: "fvec3 \<Rightarrow> fvec3 \<Rightarrow> fvec3" where
  "fvsub (a, b, c) (d, e, f) = (fsub a d, fsub b e, fsub c f)"

fun fsmul :: "fl \<Rightarrow> fvec3 \<Rightarrow> fvec3" where
  "fsmul k (a, b, c) = (fmul k a, fmul k b, fmul k c)"

text \<open>\<^verbatim>\<open>glm::dot(a, b)\<close> multiplies by component and adds the three products from the left.\<close>

fun fvdot :: "fvec3 \<Rightarrow> fvec3 \<Rightarrow> fl" where
  "fvdot (a, b, c) (d, e, f) = fadd (fadd (fmul a d) (fmul b e)) (fmul c f)"

text \<open>\<^verbatim>\<open>glm::normalize(v)\<close> is \<^verbatim>\<open>v * inversesqrt(dot(v, v))\<close>.\<close>

definition normalize_vec :: "fvec3 \<Rightarrow> fvec3" where
  "normalize_vec v = fsmul (finvsqrt (fvdot v v)) v"

fun color_of :: "vec3 \<Rightarrow> color" where
  "color_of (a, b, c) = (Fin a, Fin b, Fin c)"

fun color_add :: "color \<Rightarrow> color \<Rightarrow> color" where
  "color_add (a, b, c) (d, e, f) = (fadd a d, fadd b e, fadd c f)"

fun color_mul :: "color \<Rightarrow> color \<Rightarrow> color" where
  "color_mul (a, b, c) (d, e, f) = (fmul a d, fmul b e, fmul c f)"

fun color_pow :: "color \<Rightarrow> real \<Rightarrow> color" where
  "color_pow (a, b, c) e = (fpow a e, fpow b e, fpow c e)"

fun color_div :: "color \<Rightarrow> nat \<Rightarrow> color" where
  "color_div (a, b, c) n = (fdivn a n, fdivn b n, fdivn c n)"

definition black :: color where
  "black = color_of (0, 0, 0)"

definition white :: color where
  "white = color_of (1, 1, 1)"

subsection \<open>Collaborators of the render loops\<close>

text \<open>
  Modelled from the spec: the \<^verbatim>\<open>Raycaster::RayHit\<close> structure, declared outside the
  sources at hand: hit flag, distance, object id, triangle id and the three interpolation
  weights.
\<close>

record RayHit =
  hit :: bool
  dist_hit :: real
  meshId :: nat
  localId :: nat
  weights :: vec3

text \<open>
  The ray caster is used through three operations; \<open>'m\<close> is the type of mesh geometry.
  The position and the direction of a ray are computed by the loops and may not be finite.
\<close>

record 'm Raycaster =
  intersects :: "fvec3 \<Rightarrow> fvec3 \<Rightarrow> RayHit"
  interpolateNormal :: "RayHit \<Rightarrow> 'm \<Rightarrow> vec3"
  interpolateUV :: "RayHit \<Rightarrow> 'm \<Rightarrow> vec2"

text \<open>
  A light is its two capabilities. \<open>visible l p rc\<close> is the call
  \<^verbatim>\<open>light->visible(p, raycaster, direction, attenuation)\<close>: the returned flag, and the
  two out-parameters.
\<close>

record 'm Light =
  visible :: "fvec3 \<Rightarrow> 'm Raycaster \<Rightarrow> bool \<times> vec3 \<times> real"
  intensity :: vec3

text \<open>
  An object of the scene: its geometry and the bilinear lookup \<^verbatim>\<open>rgbl(u, v)\<close> of the
  first image of its first texture.
\<close>

record 'm Object =
  mesh :: 'm
  texture :: "real \<Rightarrow> real \<Rightarrow> vec3"

datatype Background = COLOR | IMAGE

text \<open>
  \<open>objects\<close> is the vector of objects read by mesh id; the ray caster numbers the meshes
  in the order of this vector.
\<close>

record 'm Scene =
  objects :: "nat \<Rightarrow> 'm Object"
  lights :: "'m Light list"
  backgroundMode :: Background
  background :: "fl \<Rightarrow> fl \<Rightarrow> vec3"
  backgroundColor :: vec3

text \<open>
  The process-wide random source: each draw returns a value and the next generator state.
\<close>

record 'g Random =
  Float :: "'g \<Rightarrow> real \<times> 'g"
  sampleSphere :: "'g \<Rightarrow> vec3 \<times> 'g"

text \<open>Everything the two row workers capture, apart from the image.\<close>

record ('g, 'm) Setup =
  random :: "'g Random"
  scene :: "'m Scene"
  raycaster :: "'m Raycaster"
  position :: vec3
  corner :: vec3
  dx :: vec3
  dy :: vec3
  samples :: nat
  depth :: nat

text \<open>
  Modelled from the spec: the \<^verbatim>\<open>Image\<close> class, a two-dimensional array of RGB
  accumulators, width by height, initialised to zero. \<open>rgb img (x, y)\<close> is
  \<^verbatim>\<open>img.rgb(x, y)\<close>.
\<close>

record Image =
  width :: nat
  height :: nat
  rgb :: "nat \<times> nat \<Rightarrow> color"

definition Image_new :: "nat \<Rightarrow> nat \<Rightarrow> Image" where
  "Image_new w h = \<lparr>width = w, height = h, rgb = (\<lambda>_. black)\<rparr>"

section \<open>The path loop\<close>

text \<open>The locals of one sample that the bounce loop updates, and the generator.\<close>

record 'g Path =
  rayPos :: fvec3
  rayDir :: fvec3
  sampleColor :: color
  attenColor :: color
  gen :: 'g

datatype 'a flow = Break 'a | Next 'a

text \<open>
  The loop over the lights of the scene (lines 170 to 178). The product
  \<^verbatim>\<open>attenuation * diffuse * light->intensity()\<close> is taken from the left.
\<close>

definition light_term :: "'m Raycaster \<Rightarrow> fvec3 \<Rightarrow> vec3 \<Rightarrow> 'm Light \<Rightarrow> fvec3 \<Rightarrow> fvec3" where
  "light_term rc p n light illumination =
     (case visible light p rc of
        (ok, direction, attenuation) \<Rightarrow>
          if ok then
            (let diffuse = fmax (fvdot (fvec_of n) (fvec_of direction)) (Fin 0)
             in fvadd illumination (fsmul (fmul (Fin attenuation) diffuse) (fvec_of (intensity light))))
          else illumination)"

definition illumination_at :: "'m Scene \<Rightarrow> 'm Raycaster \<Rightarrow> fvec3 \<Rightarrow> vec3 \<Rightarrow> fvec3" where
  "illumination_at sc rc p n = fold (light_term rc p n) (lights sc) (Fin 0, Fin 0, Fin 0)"

text \<open>
  The body of the loop \<^verbatim>\<open>for(size_t did = 0; did < depth; ++did)\<close> (lines 143 to 195).
  \<open>ndcPos\<close> is the position of the sample on the image plane. The test on a miss compares
  \<open>depth\<close>, the bound of the loop, with zero, as the source does. The counters are
  \<^verbatim>\<open>size_t\<close> in the source and natural numbers here: \<^verbatim>\<open>depth-1\<close> is computed inside
  the loop only, where \<open>depth\<close> is at least 1, so it never wraps.
\<close>

definition path_step :: "('g, 'm) Setup \<Rightarrow> fvec2 \<Rightarrow> nat \<Rightarrow> 'g Path \<Rightarrow> 'g Path flow" where
  "path_step S ndcPos did st =
     (let h = intersects (raycaster S) (rayPos st) (rayDir st) in
      if \<not> hit h then
        (if depth S = 0 then
           (let mode = backgroundMode (scene S) in
            if mode = IMAGE then
              Break (st\<lparr>sampleColor := color_of (background (scene S) (fst ndcPos) (snd ndcPos))\<rparr>)
            else
              Break (st\<lparr>sampleColor := color_of (backgroundColor (scene S))\<rparr>))
         else Break st)
      else
        (let m = mesh (objects (scene S) (meshId h));
             p = fvadd (rayPos st) (fsmul (Fin (dist_hit h)) (rayDir st));
             n = interpolateNormal (raycaster S) h m;
             uv = interpolateUV (raycaster S) h m;
             illumination = illumination_at (scene S) (raycaster S) p n;
             baseColor = color_pow (color_of (texture (objects (scene S) (meshId h)) (fst uv) (snd uv))) (22 / 10);
             atten = color_mul (attenColor st) baseColor;
             st1 = st\<lparr>attenColor := atten,
                      sampleColor := color_add (sampleColor st) (color_mul atten illumination)\<rparr>
         in if did < depth S - 1 then
              (case sampleSphere (random S) (gen st1) of
                 (s, g') \<Rightarrow>
                   Next (st1\<lparr>rayPos := p,
                              rayDir := normalize_vec (fvadd (fvec_of n) (fvec_of s)),
                              gen := g'\<rparr>))
            else Next st1))"

function path_loop :: "('g, 'm) Setup \<Rightarrow> fvec2 \<Rightarrow> nat \<Rightarrow> 'g Path \<Rightarrow> 'g Path" where
  "path_loop S ndcPos did st =
     (if did < depth S then
        (case path_step S ndcPos did st of
           Break st' \<Rightarrow> st'
         | Next st' \<Rightarrow> path_loop S ndcPos (Suc did) st')
      else st)"
  by pat_completeness auto
termination
  by (relation "measure (\<lambda>(S, ndcPos, did, st). depth S - did)") auto

declare path_loop.simps [simp del]

section \<open>The two passes over the image\<close>

text \<open>
  One sample of pixel \<open>(x, y)\<close> (lines 128 to 198): the jitter, the camera ray, the path
  loop. Returns the colour of the sample and the generator.
\<close>

definition trace_sample :: "('g, 'm) Setup \<Rightarrow> nat \<Rightarrow> nat \<Rightarrow> nat \<Rightarrow> nat \<Rightarrow> 'g \<Rightarrow> color \<times> 'g" where
  "trace_sample S w h x y g =
     (case Float (random S) g of (jx, g1) \<Rightarrow>
      case Float (random S) g1 of (jy, g2) \<Rightarrow>
        (let ndcPos = (fdivn (fadd (Fin (real x)) (Fin jx)) w, fdivn (fadd (Fin (real y)) (Fin jy)) h);
             worldPos = fvadd (fvadd (fvec_of (corner S)) (fsmul (fst ndcPos) (fvec_of (dx S))))
                          (fsmul (snd ndcPos) (fvec_of (dy S)));
             st = path_loop S ndcPos 0
                    \<lparr>rayPos = fvec_of (position S),
                     rayDir = normalize_vec (fvsub worldPos (fvec_of (position S))),
                     sampleColor = black,
                     attenColor = white,
                     gen = g2\<rparr>
         in (sampleColor st, gen st)))"

definition add_sample :: "Image \<Rightarrow> nat \<Rightarrow> nat \<Rightarrow> color \<Rightarrow> Image" where
  "add_sample img x y c = img\<lparr>rgb := (rgb img)((x, y) := color_add (rgb img (x, y)) c)\<rparr>"

definition shade_sample :: "('g, 'm) Setup \<Rightarrow> nat \<Rightarrow> nat \<Rightarrow> nat \<Rightarrow> Image \<times> 'g \<Rightarrow> Image \<times> 'g" where
  "shade_sample S y x sid s =
     (case s of (img, g) \<Rightarrow>
        (case trace_sample S (width img) (height img) x y g of
           (c, g') \<Rightarrow> (add_sample img x y c, g')))"

definition shade_pixel :: "('g, 'm) Setup \<Rightarrow> nat \<Rightarrow> nat \<Rightarrow> Image \<times> 'g \<Rightarrow> Image \<times> 'g" where
  "shade_pixel S y x s = fold (shade_sample S y x) [0..<samples S] s"

text \<open>The worker of the shading pass for row \<open>y\<close> (lines 124 to 201).\<close>

definition shade_row :: "('g, 'm) Setup \<Rightarrow> nat \<Rightarrow> Image \<times> 'g \<Rightarrow> Image \<times> 'g" where
  "shade_row S y s = fold (shade_pixel S y) [0..<width (fst s)] s"

text \<open>The worker of the normalisation and gamma pass for row \<open>y\<close> (lines 205 to 210).\<close>

definition gamma_pixel :: "nat \<Rightarrow> nat \<Rightarrow> nat \<Rightarrow> Image \<Rightarrow> Image" where
  "gamma_pixel n y x img =
     (let c = color_div (rgb img (x, y)) n
      in img\<lparr>rgb := (rgb img)((x, y) := color_pow c (1 / (22 / 10)))\<rparr>)"

definition gamma_row :: "nat \<Rightarrow> nat \<Rightarrow> Image \<Rightarrow> Image" where
  "gamma_row n y img = fold (gamma_pixel n y) [0..<width img] img"

text \<open>
  Modelled from the spec: \<^verbatim>\<open>System::forParallel(low, high, worker)\<close>, which is not in
  the sources at hand. It invokes the worker for every index of \<open>[low, high)\<close> and returns
  when all are done; this is its single-threaded execution, in increasing order.
\<close>

definition forParallel :: "nat \<Rightarrow> nat \<Rightarrow> (nat \<Rightarrow> 's \<Rightarrow> 's) \<Rightarrow> 's \<Rightarrow> 's" where
  "forParallel low high worker s = fold worker [low..<high] s"

definition shading_pass :: "('g, 'm) Setup \<Rightarrow> Image \<times> 'g \<Rightarrow> Image \<times> 'g" where
  "shading_pass S s = forParallel 0 (height (fst s)) (shade_row S) s"

definition gamma_pass :: "nat \<Rightarrow> Image \<Rightarrow> Image" where
  "gamma_pass n img = forParallel 0 (height img) (gamma_row n) img"

text \<open>
  The render of \<^verbatim>\<open>main\<close> from the creation of the image (line 107) to the end of the
  second pass (line 210): the image that is saved, and the generator.
\<close>

definition render :: "('g, 'm) Setup \<Rightarrow> nat \<Rightarrow> nat \<Rightarrow> 'g \<Rightarrow> Image \<times> 'g" where
  "render S w h g =
     (case shading_pass S (Image_new w h, g) of
        (img, g') \<Rightarrow> (gamma_pass (samples S) img, g'))"

section \<open>Quantities named in the statements\<close>

text \<open>
  A real in the range of binary32: zero, or of a magnitude that neither underflows to zero
  nor overflows to an infinity. On such a real \<open>fl_of\<close> is the identity.
\<close>

definition in_range :: "real \<Rightarrow> bool" where
  "in_range r \<longleftrightarrow> r = 0 \<or> (flt_under < \<bar>r\<bar> \<and> \<bar>r\<bar> < flt_over)"

fun vec_in_range :: "vec3 \<Rightarrow> bool" where
  "vec_in_range (a, b, c) = (in_range a \<and> in_range b \<and> in_range c)"

text \<open>The real operations on vectors of reals, for the statements.\<close>

fun vadd :: "vec3 \<Rightarrow> vec3 \<Rightarrow> vec3" where
  "vadd (a, b, c) (d, e, f) = (a + d, b + e, c + f)"

fun smul :: "real \<Rightarrow> vec3 \<Rightarrow> vec3" where
  "smul k (a, b, c) = (k * a, k * b, k * c)"

fun vmul :: "vec3 \<Rightarrow> vec3 \<Rightarrow> vec3" where
  "vmul (a, b, c) (d, e, f) = (a * d, b * e, c * f)"

fun vdot :: "vec3 \<Rightarrow> vec3 \<Rightarrow> real" where
  "vdot (a, b, c) (d, e, f) = a * d + b * e + c * f"

fun vpowr :: "vec3 \<Rightarrow> real \<Rightarrow> vec3" where
  "vpowr (a, b, c) e = (a powr e, b powr e, c powr e)"

fun nonneg_vec :: "vec3 \<Rightarrow> bool" where
  "nonneg_vec (a, b, c) = (0 \<le> a \<and> 0 \<le> b \<and> 0 \<le> c)"

text \<open>The products and partial sums of a dot product are all in range.\<close>

fun dot_in_range :: "vec3 \<Rightarrow> vec3 \<Rightarrow> bool" where
  "dot_in_range (a, b, c) (d, e, f) =
     (in_range (a * d) \<and> in_range (b * e) \<and> in_range (c * f)
      \<and> in_range (a * d + b * e) \<and> in_range (a * d + b * e + c * f))"

text \<open>The hit, the normal, the hit point and the base colour that the loop body computes.\<close>

definition path_hit :: "('g, 'm) Setup \<Rightarrow> 'g Path \<Rightarrow> RayHit" where
  "path_hit S st = intersects (raycaster S) (rayPos st) (rayDir st)"

definition hit_normal :: "('g, 'm) Setup \<Rightarrow> RayHit \<Rightarrow> vec3" where
  "hit_normal S h = interpolateNormal (raycaster S) h (mesh (objects (scene S) (meshId h)))"

definition hit_uv :: "('g, 'm) Setup \<Rightarrow> RayHit \<Rightarrow> vec2" where
  "hit_uv S h = interpolateUV (raycaster S) h (mesh (objects (scene S) (meshId h)))"

definition hit_texel :: "('g, 'm) Setup \<Rightarrow> RayHit \<Rightarrow> vec3" where
  "hit_texel S h = texture (objects (scene S) (meshId h)) (fst (hit_uv S h)) (snd (hit_uv S h))"

definition hit_baseColor :: "('g, 'm) Setup \<Rightarrow> RayHit \<Rightarrow> color" where
  "hit_baseColor S h = color_pow (color_of (hit_texel S h)) (22 / 10)"

definition hit_point :: "'g Path \<Rightarrow> RayHit \<Rightarrow> fvec3" where
  "hit_point st h = fvadd (rayPos st) (fsmul (Fin (dist_hit h)) (rayDir st))"

definition hit_illumination :: "('g, 'm) Setup \<Rightarrow> 'g Path \<Rightarrow> RayHit \<Rightarrow> fvec3" where
  "hit_illumination S st h =
     illumination_at (scene S) (raycaster S) (hit_point st h) (hit_normal S h)"

text \<open>
  The position on the image plane and the state in which \<open>trace_sample\<close> starts the
  path loop of a sample.
\<close>

definition sample_ndcPos :: "('g, 'm) Setup \<Rightarrow> nat \<Rightarrow> nat \<Rightarrow> nat \<Rightarrow> nat \<Rightarrow> 'g \<Rightarrow> fvec2" where
  "sample_ndcPos S w h x y g =
     (fdivn (fadd (Fin (real x)) (Fin (fst (Float (random S) g)))) w,
      fdivn (fadd (Fin (real y)) (Fin (fst (Float (random S) (snd (Float (random S) g)))))) h)"

definition sample_start :: "('g, 'm) Setup \<Rightarrow> nat \<Rightarrow> nat \<Rightarrow> nat \<Rightarrow> nat \<Rightarrow> 'g \<Rightarrow> 'g Path" where
  "sample_start S w h x y g =
     \<lparr>rayPos = fvec_of (position S),
      rayDir = normalize_vec (fvsub
        (fvadd (fvadd (fvec_of (corner S)) (fsmul (fst (sample_ndcPos S w h x y g)) (fvec_of (dx S))))
           (fsmul (snd (sample_ndcPos S w h x y g)) (fvec_of (dy S))))
        (fvec_of (position S))),
      sampleColor = black,
      attenColor = white,
      gen = snd (Float (random S) (snd (Float (random S) g)))\<rparr>"

text \<open>
  The colour of a sample in the words of the specification: over the hits of a path in
  order, each with its base colour and its illumination, the throughput \<open>t\<close> is multiplied
  by the base colour and the colour \<open>c\<close> grows by throughput times illumination.
  \<open>path_hits\<close> lists the hits that the path loop meets from a state on.
\<close>

fun radiance :: "(color \<times> fvec3) list \<Rightarrow> color \<Rightarrow> color \<Rightarrow> color" where
  "radiance [] t c = c"
| "radiance ((b, i) # hs) t c =
     radiance hs (color_mul t b) (color_add c (color_mul (color_mul t b) i))"



text \<open>The average over \<open>n\<close> samples followed by the gamma encoding.\<close>

definition encode :: "nat \<Rightarrow> color \<Rightarrow> color" where
  "encode n c = color_pow (color_div c n) (1 / (22 / 10))"


definition light_share :: "'m Raycaster \<Rightarrow> fvec3 \<Rightarrow> vec3 \<Rightarrow> 'm Light \<Rightarrow> fvec3" where
  "light_share rc p n light =
     fsmul (fmul (Fin (snd (snd (visible light p rc))))
              (fmax (fvdot (fvec_of n) (fvec_of (fst (snd (visible light p rc))))) (Fin 0)))
       (fvec_of (intensity light))"

definition light_ok :: "'m Raycaster \<Rightarrow> fvec3 \<Rightarrow> 'm Light \<Rightarrow> bool" where
  "light_ok rc p light = fst (visible light p rc)"

text \<open>A component of the direction that is an infinity or NaN.\<close>

fun not_finite :: "fl \<Rightarrow> bool" where
  "not_finite (Fin a) = False"
| "not_finite x = True"

section \<open>Test scenes\<close>

text \<open>
  The scene of the end-to-end scenario: a unit quad in the plane \<open>z = 0\<close> facing \<open>+z\<close>,
  a light straight above it with intensity 1, the camera at \<open>(0, 0, 2)\<close> looking down.
  The random source is a counter that always draws \<open>1/2\<close> and the sphere point
  \<open>(0, 0, -1)\<close>.
\<close>

definition half_random :: "nat Random" where
  "half_random = \<lparr>Float = (\<lambda>g. (1 / 2, Suc g)), sampleSphere = (\<lambda>g. ((0, 0, - 1), Suc g))\<rparr>"

definition no_hit :: RayHit where
  "no_hit = \<lparr>hit = False, dist_hit = 0, meshId = 0, localId = 0, weights = (0, 0, 0)\<rparr>"

definition quad_intersects :: "fvec3 \<Rightarrow> fvec3 \<Rightarrow> RayHit" where
  "quad_intersects pos dir =
     (case pos of
        (Fin ox, Fin oy, Fin oz) \<Rightarrow>
          (case dir of
             (Fin ex, Fin ey, Fin ez) \<Rightarrow>
               if 0 < oz \<and> ez < 0
                  \<and> \<bar>ox + (- oz / ez) * ex\<bar> \<le> 1 / 2 \<and> \<bar>oy + (- oz / ez) * ey\<bar> \<le> 1 / 2
               then \<lparr>hit = True, dist_hit = - oz / ez, meshId = 0, localId = 0, weights = (1, 0, 0)\<rparr>
               else no_hit
           | _ \<Rightarrow> no_hit)
      | _ \<Rightarrow> no_hit)"

definition quad_raycaster :: "unit Raycaster" where
  "quad_raycaster = \<lparr>intersects = quad_intersects,
     interpolateNormal = (\<lambda>h m. (0, 0, 1)), interpolateUV = (\<lambda>h m. (0, 0))\<rparr>"

definition empty_raycaster :: "unit Raycaster" where
  "empty_raycaster = \<lparr>intersects = (\<lambda>pos dir. no_hit),
     interpolateNormal = (\<lambda>h m. (0, 0, 1)), interpolateUV = (\<lambda>h m. (0, 0))\<rparr>"

definition top_light :: "unit Light" where
  "top_light = \<lparr>visible = (\<lambda>p rc. (True, (0, 0, 1), 1)), intensity = (1, 1, 1)\<rparr>"


definition quad_scene :: "unit Scene" where
  "quad_scene = \<lparr>objects = (\<lambda>i. \<lparr>mesh = (), texture = (\<lambda>u v. (1, 1, 0))\<rparr>),
     lights = [top_light], backgroundMode = COLOR,
     background = (\<lambda>u v. (0, 0, 0)), backgroundColor = (1, 1, 1)\<rparr>"

definition quad_setup :: "unit Raycaster \<Rightarrow> nat \<Rightarrow> nat \<Rightarrow> (nat, unit) Setup" where
  "quad_setup rc n d = \<lparr>random = half_random, scene = quad_scene, raycaster = rc,
     position = (0, 0, 2), corner = (- 1, - 1, 1), dx = (2, 0, 0), dy = (0, 2, 0),
     samples = n, depth = d\<rparr>"

text \<open>The state in which the path loop of the only sample of a 1 by 1 image starts.\<close>

definition first_path :: "nat Path" where
  "first_path = \<lparr>rayPos = fvec_of (0, 0, 2), rayDir = fvec_of (0, 0, - 1),
     sampleColor = black, attenColor = white, gen = 2\<rparr>"

text \<open>
  A second scene, in which every ray hits a surface of normal \<open>(0, 0, 1)\<close> at distance 1,
  for a texel \<open>tex\<close> and a single light \<open>l\<close>. \<open>lamp k d i\<close> is visible from everywhere
  with attenuation \<open>k\<close>, direction \<open>d\<close> and intensity \<open>i\<close>. \<open>sphere_random s\<close> always
  draws the sphere point \<open>s\<close>.
\<close>

definition floor_raycaster :: "unit Raycaster" where
  "floor_raycaster = \<lparr>intersects = (\<lambda>pos dir. \<lparr>hit = True, dist_hit = 1, meshId = 0, localId = 0,
       weights = (1, 0, 0)\<rparr>),
     interpolateNormal = (\<lambda>h m. (0, 0, 1)), interpolateUV = (\<lambda>h m. (0, 0))\<rparr>"

definition lamp :: "real \<Rightarrow> vec3 \<Rightarrow> vec3 \<Rightarrow> unit Light" where
  "lamp k d i = \<lparr>visible = (\<lambda>p rc. (True, d, k)), intensity = i\<rparr>"

definition sphere_random :: "vec3 \<Rightarrow> nat Random" where
  "sphere_random s = \<lparr>Float = (\<lambda>g. (1 / 2, Suc g)), sampleSphere = (\<lambda>g. (s, Suc g))\<rparr>"

definition slab_setup :: "nat Random \<Rightarrow> vec3 \<Rightarrow> unit Light \<Rightarrow> nat \<Rightarrow> nat \<Rightarrow> (nat, unit) Setup" where
  "slab_setup r tex l n d =
     \<lparr>random = r,
      scene = \<lparr>objects = (\<lambda>i. \<lparr>mesh = (), texture = (\<lambda>u v. tex)\<rparr>),
        lights = [l], backgroundMode = COLOR,
        background = (\<lambda>u v. (0, 0, 0)), backgroundColor = (1, 1, 1)\<rparr>,
      raycaster = floor_raycaster,
      position = (0, 0, 2), corner = (- 1, - 1, 1), dx = (2, 0, 0), dy = (0, 2, 0),
      samples = n, depth = d\<rparr>"

section \<open>Relations between images and bounds on colours\<close>

text \<open>Two states of a pass agree on row \<open>y\<close>, on the dimensions and on the generator.\<close>

definition row_agree :: "nat \<Rightarrow> Image \<times> 'g \<Rightarrow> Image \<times> 'g \<Rightarrow> bool" where
  "row_agree y u v \<longleftrightarrow>
     width (fst u) = width (fst v) \<and> height (fst u) = height (fst v) \<and> snd u = snd v
     \<and> (\<forall>x. rgb (fst u) (x, y) = rgb (fst v) (x, y))"

text \<open>
  \<open>chan_pos\<close>: a float that is not below zero, that is a finite number from zero up, plus
  infinity, or NaN. \<open>chan_nn\<close>: moreover, when finite, a number in the range of binary32.
  \<open>chan_up a b\<close>: when \<open>b\<close> is finite, \<open>a\<close> is finite too and at most \<open>b\<close>.
\<close>

fun chan_pos :: "fl \<Rightarrow> bool" where
  "chan_pos (Fin v) = (0 \<le> v)"
| "chan_pos PInf = True"
| "chan_pos NInf = False"
| "chan_pos NaN = True"

fun chan_nn :: "fl \<Rightarrow> bool" where
  "chan_nn (Fin v) = (0 \<le> v \<and> in_range v)"
| "chan_nn PInf = True"
| "chan_nn NInf = False"
| "chan_nn NaN = True"

fun chan_up :: "fl \<Rightarrow> fl \<Rightarrow> bool" where
  "chan_up (Fin x) (Fin y) = (x \<le> y)"
| "chan_up a (Fin y) = False"
| "chan_up a b = True"

fun color_pos :: "color \<Rightarrow> bool" where
  "color_pos (a, b, c) = (chan_pos a \<and> chan_pos b \<and> chan_pos c)"

fun color_nn :: "color \<Rightarrow> bool" where
  "color_nn (a, b, c) = (chan_nn a \<and> chan_nn b \<and> chan_nn c)"

fun color_up :: "color \<Rightarrow> color \<Rightarrow> bool" where
  "color_up (a, b, c) (d, e, f) = (chan_up a d \<and> chan_up b e \<and> chan_up c f)"

definition nonneg_inputs :: "'m Scene \<Rightarrow> bool" where
  "nonneg_inputs sc \<longleftrightarrow>
     (\<forall>l \<in> set (lights sc). nonneg_vec (intensity l) \<and> (\<forall>p rc. 0 \<le> snd (snd (visible l p rc))))
     \<and> (\<forall>i u v. nonneg_vec (texture (objects sc i) u v))"

definition path_ok :: "'g Path \<Rightarrow> bool" where
  "path_ok st \<longleftrightarrow> color_nn (sampleColor st) \<and> color_nn (attenColor st)"

definition path_grows :: "'g Path \<Rightarrow> 'g Path \<Rightarrow> bool" where
  "path_grows st st' \<longleftrightarrow> color_up (sampleColor st) (sampleColor st') \<and> path_ok st'"

definition image_nn :: "Image \<times> 'g \<Rightarrow> bool" where
  "image_nn s \<longleftrightarrow> (\<forall>p. color_nn (rgb (fst s) p))"

definition image_grows :: "Image \<times> 'g \<Rightarrow> Image \<times> 'g \<Rightarrow> bool" where
  "image_grows s t \<longleftrightarrow> (\<forall>p. color_up (rgb (fst s) p) (rgb (fst t) p)) \<and> image_nn t"

section \<open>The sum that the next direction normalises\<close>

text \<open>
  \<open>next_sum\<close> is \<^verbatim>\<open>n + Random::sampleSphere()\<close> at a hit, in reals. A sum is \<open>tiny\<close>
  when the square of each component underflows to zero, and \<open>comfortable\<close> when it is not
  zero and each component is zero or between \<open>2^-60\<close> and \<open>2^60\<close> in magnitude, so that
  the squares, their sum, the inverse root and the quotients all stay in range.
\<close>

definition next_sum :: "('g, 'm) Setup \<Rightarrow> 'g Path \<Rightarrow> vec3" where
  "next_sum S st = vadd (hit_normal S (path_hit S st)) (fst (sampleSphere (random S) (gen st)))"

definition comfy :: "real \<Rightarrow> bool" where
  "comfy a \<longleftrightarrow> a = 0 \<or> (1 / 2 ^ 60 \<le> \<bar>a\<bar> \<and> \<bar>a\<bar> \<le> 2 ^ 60)"

fun comfortable :: "vec3 \<Rightarrow> bool" where
  "comfortable (a, b, c) = (comfy a \<and> comfy b \<and> comfy c \<and> (a \<noteq> 0 \<or> b \<noteq> 0 \<or> c \<noteq> 0))"

fun tiny :: "vec3 \<Rightarrow> bool" where
  "tiny (a, b, c) = (\<bar>a\<bar> \<le> 1 / 2 ^ 75 \<and> \<bar>b\<bar> \<le> 1 / 2 ^ 75 \<and> \<bar>c\<bar> \<le> 1 / 2 ^ 75)"


section \<open>Floats\<close>

lemmas fl_eval = fl_of_def flt_over_def flt_under_def inf_times_def fmax_def fsub_def

lemma fl_of_in_range: "in_range r \<Longrightarrow> fl_of r = Fin r"
  by (auto simp: in_range_def fl_of_def flt_over_def flt_under_def)

lemma in_range_zero [simp]: "in_range 0"
  by (simp add: in_range_def)

lemma in_range_bounds: "1 / 2 ^ 100 \<le> \<bar>r\<bar> \<Longrightarrow> \<bar>r\<bar> \<le> 2 ^ 100 \<Longrightarrow> in_range r"
proof -
  assume a: "1 / 2 ^ 100 \<le> \<bar>r\<bar>" and b: "\<bar>r\<bar> \<le> 2 ^ 100"
  have "flt_under < 1 / 2 ^ 100" by (simp add: flt_under_def)
  moreover have "(2::real) ^ 100 < flt_over" by (simp add: flt_over_def)
  ultimately show ?thesis using a b by (simp add: in_range_def)
qed

lemma fl_of_result: "fl_of r = Fin v \<Longrightarrow> in_range v"
  by (auto simp: in_range_def fl_of_def flt_over_def flt_under_def split: if_splits)

lemma fadd_zero_in_range [simp]:
  "in_range a \<Longrightarrow> fadd (Fin 0) (Fin a) = Fin a" "in_range a \<Longrightarrow> fadd (Fin a) (Fin 0) = Fin a"
  by (simp_all add: fl_of_in_range)

lemma fmul_one_in_range [simp]:
  "in_range a \<Longrightarrow> fmul (Fin 1) (Fin a) = Fin a" "in_range a \<Longrightarrow> fmul (Fin a) (Fin 1) = Fin a"
  by (simp_all add: fl_of_in_range)

lemma fl_of_zero [simp]: "fl_of 0 = Fin 0"
  by (simp add: fl_of_in_range)

lemma fl_of_one [simp]: "fl_of 1 = Fin 1"
  by (simp add: fl_of_def flt_over_def flt_under_def)

lemma color_add_black_black [simp]: "color_add black black = black"
  by (simp add: black_def)

section \<open>The path loop\<close>

lemma path_loop_stop: "\<not> did < depth S \<Longrightarrow> path_loop S ndcPos did st = st"
  by (simp add: path_loop.simps)

lemma path_loop_iter: "did < depth S \<Longrightarrow> path_loop S ndcPos did st =
   (case path_step S ndcPos did st of Break st' \<Rightarrow> st' | Next st' \<Rightarrow> path_loop S ndcPos (Suc did) st')"
  by (subst path_loop.simps) simp

text \<open>A miss inside the loop leaves the sample untouched.\<close>

lemma path_step_miss:
  assumes "did < depth S" "\<not> hit (path_hit S st)"
  shows "path_step S ndcPos did st = Break st"
  using assms by (simp add: path_step_def path_hit_def Let_def)

lemma path_step_hit:
  assumes "hit (path_hit S st)"
  shows "path_step S ndcPos did st =
     Next (if did < depth S - 1 then
        st\<lparr>attenColor := color_mul (attenColor st) (hit_baseColor S (path_hit S st)),
           sampleColor := color_add (sampleColor st)
             (color_mul (color_mul (attenColor st) (hit_baseColor S (path_hit S st)))
                (hit_illumination S st (path_hit S st))),
           rayPos := hit_point st (path_hit S st),
           rayDir := normalize_vec (fvadd (fvec_of (hit_normal S (path_hit S st)))
                        (fvec_of (fst (sampleSphere (random S) (gen st))))),
           gen := snd (sampleSphere (random S) (gen st))\<rparr>
      else
        st\<lparr>attenColor := color_mul (attenColor st) (hit_baseColor S (path_hit S st)),
           sampleColor := color_add (sampleColor st)
             (color_mul (color_mul (attenColor st) (hit_baseColor S (path_hit S st)))
                (hit_illumination S st (path_hit S st)))\<rparr>)"
  using assms
  by (simp add: path_step_def path_hit_def Let_def hit_baseColor_def hit_illumination_def
      hit_normal_def hit_uv_def hit_texel_def hit_point_def split: prod.splits)

lemma trace_sample_start:
  "trace_sample S w h x y g =
     (sampleColor (path_loop S (sample_ndcPos S w h x y g) 0 (sample_start S w h x y g)),
      gen (path_loop S (sample_ndcPos S w h x y g) 0 (sample_start S w h x y g)))"
  by (simp add: trace_sample_def sample_start_def sample_ndcPos_def Let_def split: prod.splits)

section \<open>The illumination at a hit\<close>

lemma light_term_eq:
  "light_term rc p n l acc =
     (if light_ok rc p l then fvadd acc (light_share rc p n l) else acc)"
  by (simp add: light_term_def light_share_def light_ok_def Let_def split: prod.splits)




section \<open>Folds\<close>

lemma fold_invariant:
  assumes "P s" and "\<And>i t. P t \<Longrightarrow> P (f i t)"
  shows "P (fold f xs s)"
  using assms(1)
proof (induction xs arbitrary: s)
  case Nil
  then show ?case by simp
next
  case (Cons a xs)
  then show ?case by (simp add: assms(2))
qed

lemma fold_related:
  assumes "R s t" and "\<And>i u v. R u v \<Longrightarrow> R (f i u) (f' i v)"
  shows "R (fold f xs s) (fold f' xs t)"
  using assms(1)
proof (induction xs arbitrary: s t)
  case Nil
  then show ?case by simp
next
  case (Cons a xs)
  then show ?case by (simp add: assms(2))
qed

section \<open>The image under the two passes\<close>

lemma Image_new_simps [simp]:
  "width (Image_new w h) = w" "height (Image_new w h) = h" "rgb (Image_new w h) p = black"
  by (simp_all add: Image_new_def)

lemma add_sample_simps [simp]:
  "width (add_sample img x y c) = width img"
  "height (add_sample img x y c) = height img"
  "rgb (add_sample img x y c) p = (if p = (x, y) then color_add (rgb img p) c else rgb img p)"
  by (simp_all add: add_sample_def)

lemma add_sample_black [simp]: "add_sample (Image_new w h) x y black = Image_new w h"
  by (simp add: add_sample_def Image_new_def fun_eq_iff)

lemma shade_sample_eq:
  "shade_sample S y x sid s =
     (add_sample (fst s) x y (fst (trace_sample S (width (fst s)) (height (fst s)) x y (snd s))),
      snd (trace_sample S (width (fst s)) (height (fst s)) x y (snd s)))"
  by (simp add: shade_sample_def split: prod.splits)

lemma gamma_pixel_simps [simp]:
  "width (gamma_pixel n y x img) = width img"
  "height (gamma_pixel n y x img) = height img"
  "rgb (gamma_pixel n y x img) p = (if p = (x, y) then encode n (rgb img p) else rgb img p)"
  by (simp_all add: gamma_pixel_def encode_def Let_def)

lemma gamma_cols:
  "width (fold (gamma_pixel n y) [0..<k] img) = width img
   \<and> height (fold (gamma_pixel n y) [0..<k] img) = height img
   \<and> rgb (fold (gamma_pixel n y) [0..<k] img) (x', y') =
       (if y' = y \<and> x' < k then encode n (rgb img (x', y')) else rgb img (x', y'))"
  by (induction k) (auto simp: less_Suc_eq)

lemma gamma_row_simps:
  "width (gamma_row n y img) = width img"
  "height (gamma_row n y img) = height img"
  "rgb (gamma_row n y img) (x', y') =
       (if y' = y \<and> x' < width img then encode n (rgb img (x', y')) else rgb img (x', y'))"
  using gamma_cols [of n y "width img" img x' y'] by (simp_all add: gamma_row_def)

lemma gamma_rows:
  "width (fold (gamma_row n) [0..<k] img) = width img
   \<and> height (fold (gamma_row n) [0..<k] img) = height img
   \<and> rgb (fold (gamma_row n) [0..<k] img) (x', y') =
       (if y' < k \<and> x' < width img then encode n (rgb img (x', y')) else rgb img (x', y'))"
  by (induction k) (auto simp: less_Suc_eq gamma_row_simps)

lemma gamma_pass_simps:
  "width (gamma_pass n img) = width img"
  "height (gamma_pass n img) = height img"
  "rgb (gamma_pass n img) (x', y') =
       (if y' < height img \<and> x' < width img then encode n (rgb img (x', y')) else rgb img (x', y'))"
  using gamma_rows [of n "height img" img x' y'] by (simp_all add: gamma_pass_def forParallel_def)

text \<open>Dimensions under the shading pass.\<close>

lemma shade_sample_dims:
  "width (fst (shade_sample S y x sid s)) = width (fst s)
   \<and> height (fst (shade_sample S y x sid s)) = height (fst s)"
  by (simp add: shade_sample_eq)

lemma shade_pixel_dims:
  "width (fst (shade_pixel S y x s)) = width (fst s)
   \<and> height (fst (shade_pixel S y x s)) = height (fst s)"
  unfolding shade_pixel_def
  by (rule fold_invariant [where P = "\<lambda>t. width (fst t) = width (fst s) \<and> height (fst t) = height (fst s)"])
     (simp_all add: shade_sample_dims)

lemma shade_row_dims:
  "width (fst (shade_row S y s)) = width (fst s)
   \<and> height (fst (shade_row S y s)) = height (fst s)"
  unfolding shade_row_def
  by (rule fold_invariant [where P = "\<lambda>t. width (fst t) = width (fst s) \<and> height (fst t) = height (fst s)"])
     (simp_all add: shade_pixel_dims)

lemma shade_rows_dims:
  "width (fst (fold (shade_row S) ys s)) = width (fst s)
   \<and> height (fst (fold (shade_row S) ys s)) = height (fst s)"
  by (rule fold_invariant [where P = "\<lambda>t. width (fst t) = width (fst s) \<and> height (fst t) = height (fst s)"])
     (simp_all add: shade_row_dims)

lemma shading_pass_dims:
  "width (fst (shading_pass S s)) = width (fst s)
   \<and> height (fst (shading_pass S s)) = height (fst s)"
  unfolding shading_pass_def forParallel_def by (rule shade_rows_dims)

text \<open>Pixels outside the row of a worker.\<close>

lemma shade_pixel_frame:
  "p \<noteq> (x, y) \<Longrightarrow> rgb (fst (shade_pixel S y x s)) p = rgb (fst s) p"
  unfolding shade_pixel_def
  by (rule fold_invariant [where P = "\<lambda>t. rgb (fst t) p = rgb (fst s) p"])
     (simp_all add: shade_sample_eq)

lemma shade_row_frame:
  "y' \<noteq> y \<Longrightarrow> rgb (fst (shade_row S y s)) (x', y') = rgb (fst s) (x', y')"
  unfolding shade_row_def
  by (rule fold_invariant [where P = "\<lambda>t. rgb (fst t) (x', y') = rgb (fst s) (x', y')"])
     (simp_all add: shade_pixel_frame)

text \<open>A pass whose samples are all black leaves the zero image as it is.\<close>

lemma shading_pass_black:
  assumes "\<And>w h x y g. fst (trace_sample S w h x y g) = black"
  shows "fst (shading_pass S (Image_new w h, g)) = Image_new w h"
proof -
  have a: "\<And>y x sid t. fst t = Image_new w h \<Longrightarrow> fst (shade_sample S y x sid t) = Image_new w h"
    by (simp add: shade_sample_eq assms)
  have b: "\<And>y x t. fst t = Image_new w h \<Longrightarrow> fst (shade_pixel S y x t) = Image_new w h"
  proof -
    fix y x and t :: "Image \<times> 'a"
    assume "fst t = Image_new w h"
    then show "fst (shade_pixel S y x t) = Image_new w h"
      unfolding shade_pixel_def
      by (intro fold_invariant [where P = "\<lambda>u. fst u = Image_new w h"]) (simp_all add: a)
  qed
  have c: "\<And>y t. fst t = Image_new w h \<Longrightarrow> fst (shade_row S y t) = Image_new w h"
  proof -
    fix y and t :: "Image \<times> 'a"
    assume "fst t = Image_new w h"
    then show "fst (shade_row S y t) = Image_new w h"
      unfolding shade_row_def
      by (intro fold_invariant [where P = "\<lambda>u. fst u = Image_new w h"]) (simp_all add: b)
  qed
  show ?thesis
    unfolding shading_pass_def forParallel_def
    by (rule fold_invariant [where P = "\<lambda>u. fst u = Image_new w h"]) (simp_all add: c)
qed

lemma shading_pass_no_samples:
  assumes "samples S = 0"
  shows "shading_pass S s = s"
proof -
  have b: "\<And>y x t. shade_pixel S y x t = t"
    by (simp add: shade_pixel_def assms)
  have c: "\<And>y t. shade_row S y t = t"
  proof -
    fix y t
    show "shade_row S y t = t"
      unfolding shade_row_def
      by (rule fold_invariant [where P = "\<lambda>u. u = t"]) (simp_all add: b)
  qed
  show ?thesis
    unfolding shading_pass_def forParallel_def
    by (rule fold_invariant [where P = "\<lambda>u. u = s"]) (simp_all add: c)
qed

lemma render_fst:
  "fst (render S w h g) = gamma_pass (samples S) (fst (shading_pass S (Image_new w h, g)))"
  by (simp add: render_def split: prod.splits)

lemma render_pixel:
  "rgb (fst (render S w h g)) (x, y) =
     (if y < h \<and> x < w then encode (samples S) (rgb (fst (shading_pass S (Image_new w h, g))) (x, y))
      else rgb (fst (shading_pass S (Image_new w h, g))) (x, y))"
  using shading_pass_dims [of S "(Image_new w h, g)"]
  by (simp add: render_fst gamma_pass_simps)


section \<open>The test scenes, evaluated\<close>

lemma encode_black [simp]: "0 < n \<Longrightarrow> encode n black = black"
  by (simp add: encode_def black_def)

lemma encode_white_one [simp]: "encode (Suc 0) white = white"
  by (simp add: encode_def white_def)

lemma encode_black_zero [simp]: "encode 0 black = (NaN, NaN, NaN)"
  by (simp add: encode_def black_def)

lemma black_neq_white: "black \<noteq> white"
  by (simp add: black_def white_def)

lemma quad_setup_simps [simp]:
  "samples (quad_setup rc n d) = n" "depth (quad_setup rc n d) = d"
  "raycaster (quad_setup rc n d) = rc" "scene (quad_setup rc n d) = quad_scene"
  "random (quad_setup rc n d) = half_random"
  by (simp_all add: quad_setup_def)

lemma sample_start_quad:
  "sample_start (quad_setup rc n d) (Suc 0) (Suc 0) 0 0 0 = first_path"
  "sample_ndcPos (quad_setup rc n d) (Suc 0) (Suc 0) 0 0 0 = (Fin (1 / 2), Fin (1 / 2))"
  by (simp_all add: sample_start_def sample_ndcPos_def quad_setup_def half_random_def
      first_path_def normalize_vec_def fl_eval black_def white_def)

lemma first_path_simps [simp]:
  "rayPos first_path = fvec_of (0, 0, 2)" "rayDir first_path = fvec_of (0, 0, - 1)"
  "sampleColor first_path = black" "attenColor first_path = white" "gen first_path = 2"
  by (simp_all add: first_path_def)

lemma path_hit_empty: "hit (path_hit (quad_setup empty_raycaster n d) st) = False"
  by (simp add: path_hit_def empty_raycaster_def no_hit_def)

lemma path_hit_quad:
  "path_hit (quad_setup quad_raycaster n d) first_path =
     \<lparr>hit = True, dist_hit = 2, meshId = 0, localId = 0, weights = (1, 0, 0)\<rparr>"
  by (simp add: path_hit_def quad_raycaster_def quad_intersects_def)

lemma quad_hit_values:
  "hit_baseColor (quad_setup quad_raycaster n d) h = color_of (1, 1, 0)"
  "hit_normal (quad_setup quad_raycaster n d) h = (0, 0, 1)"
  "hit_illumination (quad_setup quad_raycaster n d) st h = color_of (1, 1, 1)"
  by (simp_all add: hit_baseColor_def hit_normal_def hit_uv_def hit_texel_def hit_illumination_def
      quad_raycaster_def quad_scene_def illumination_at_def light_term_def top_light_def fl_eval
      Let_def)

lemma quad_sample_miss:
  "trace_sample (quad_setup empty_raycaster n (Suc 0)) (Suc 0) (Suc 0) 0 0 0 = (black, 2)"
proof -
  have "path_step (quad_setup empty_raycaster n (Suc 0)) (Fin (1 / 2), Fin (1 / 2)) 0 first_path
      = Break first_path"
    by (rule path_step_miss) (simp_all add: path_hit_empty)
  then show ?thesis
    by (simp add: trace_sample_start sample_start_quad path_loop_iter)
qed

lemma quad_step_hit:
  "path_step (quad_setup quad_raycaster n d) (Fin (1 / 2), Fin (1 / 2)) did first_path =
     Next (if did < d - 1 then
        first_path\<lparr>attenColor := color_of (1, 1, 0), sampleColor := color_of (1, 1, 0),
          rayPos := fvec_of (0, 0, 0), rayDir := (NaN, NaN, NaN), gen := 3\<rparr>
      else first_path\<lparr>attenColor := color_of (1, 1, 0), sampleColor := color_of (1, 1, 0)\<rparr>)"
proof -
  have "hit (path_hit (quad_setup quad_raycaster n d) first_path)"
    by (simp add: path_hit_quad)
  then show ?thesis
    by (simp add: path_step_hit path_hit_quad quad_hit_values hit_point_def
        half_random_def normalize_vec_def black_def white_def fl_eval)
qed

lemma quad_sample_hit:
  "trace_sample (quad_setup quad_raycaster n (Suc 0)) (Suc 0) (Suc 0) 0 0 0 = (color_of (1, 1, 0), 2)"
  by (simp add: trace_sample_start sample_start_quad path_loop_iter path_loop_stop quad_step_hit)

lemma shading_pass_one_pixel:
  "shading_pass S (Image_new (Suc 0) (Suc 0), g) =
     shade_pixel S 0 0 (Image_new (Suc 0) (Suc 0), g)"
  by (simp add: shading_pass_def forParallel_def shade_row_def)

lemma shade_pixel_one_sample:
  "samples S = Suc 0 \<Longrightarrow> shade_pixel S y x s = shade_sample S y x 0 s"
  by (simp add: shade_pixel_def)

section \<open>Depth and sample count at their bounds\<close>

text \<open>
  Claim C1 says that a miss at the first bounce samples the background. In the loop the
  test guarding the background is on \<open>depth\<close>, the bound of the loop, which is never
  zero inside the loop. Evaluated on the scene without geometry, with one sample and depth
  one: the only ray misses at bounce 0, the sample stays black and so does the pixel, while
  the background colour of the scene is white.
\<close>

theorem first_bounce_miss_stays_black:
  "trace_sample (quad_setup empty_raycaster 1 1) 1 1 0 0 0 = (black, 2)
   \<and> rgb (fst (render (quad_setup empty_raycaster 1 1) 1 1 0)) (0, 0) = black
   \<and> color_of (backgroundColor (scene (quad_setup empty_raycaster 1 1))) = white
   \<and> black \<noteq> white"
  by (simp add: quad_sample_miss render_pixel shading_pass_one_pixel shade_pixel_one_sample
      shade_sample_eq black_neq_white)
     (simp add: quad_scene_def white_def)

text \<open>
  Claim C3 says that with depth zero every pixel is the background value. On the scene
  without geometry and a white background, depth 0 and one sample, the pixel is black, not
  the encoded background colour.
\<close>

theorem zero_depth_pixel_not_background:
  "rgb (fst (render (quad_setup empty_raycaster 1 0) 1 1 0)) (0, 0) = black
   \<and> rgb (fst (render (quad_setup empty_raycaster 1 0) 1 1 0)) (0, 0)
       \<noteq> encode 1 (color_of (backgroundColor (scene (quad_setup empty_raycaster 1 0))))"
  by (simp add: render_pixel shading_pass_one_pixel shade_pixel_one_sample shade_sample_eq
      trace_sample_start path_loop_stop sample_start_def)
     (simp add: quad_scene_def encode_def black_def)

text \<open>
  Claim C3, amended. With depth zero the path loop runs no iteration, so no ray is traced
  and the background is not sampled: every sample is black, and with at least one sample
  per pixel every pixel of the output is black, whatever the background is.
\<close>

theorem zero_depth_black:
  assumes "depth S = 0" and "0 < samples S" and "x < w" and "y < h"
  shows "rgb (fst (render S w h g)) (x, y) = black"
proof -
  have "\<And>w h x y g. fst (trace_sample S w h x y g) = black"
    by (simp add: trace_sample_start path_loop_stop assms(1) sample_start_def)
  then have "fst (shading_pass S (Image_new w h, g)) = Image_new w h"
    by (rule shading_pass_black)
  then show ?thesis
    using assms by (simp add: render_pixel)
qed

text \<open>
  Claim C3 as amended, at the quad scene with three samples and depth 0, for pixel (1, 0)
  of a 2 by 1 image.
\<close>

theorem zero_depth_black_witness:
  "depth (quad_setup quad_raycaster 3 0) = 0 \<and> 0 < samples (quad_setup quad_raycaster 3 0)
   \<and> (1::nat) < 2 \<and> (0::nat) < 1
   \<and> rgb (fst (render (quad_setup quad_raycaster 3 0) 2 1 0)) (1, 0) = black"
  using zero_depth_black [of "quad_setup quad_raycaster 3 0" 1 2 0 1 0] by simp

text \<open>
  Claim C4 says that with zero samples the divisor is guarded and the image is black. On
  the test scene with zero samples the pixel is the result of dividing by zero, not black.
\<close>

theorem zero_samples_pixel_not_black:
  "rgb (fst (render (quad_setup quad_raycaster 0 1) 1 1 0)) (0, 0) = (NaN, NaN, NaN)
   \<and> rgb (fst (render (quad_setup quad_raycaster 0 1) 1 1 0)) (0, 0) \<noteq> black"
  by (simp add: render_pixel shading_pass_no_samples) (simp add: black_def)

text \<open>
  Claim C4, amended. With zero samples the shading pass adds nothing, and the second pass
  divides every accumulator, still zero, by \<open>float(0)\<close> without a guard: every channel
  of every pixel of the output is the NaN of that division, not zero.
\<close>

theorem zero_samples_not_finite:
  assumes "samples S = 0" and "x < w" and "y < h"
  shows "rgb (fst (render S w h g)) (x, y) = color_div black 0
    \<and> color_div black 0 = (NaN, NaN, NaN)
    \<and> rgb (fst (render S w h g)) (x, y) = (NaN, NaN, NaN)"
  using assms by (simp add: render_pixel shading_pass_no_samples) (simp add: black_def encode_def)

text \<open>
  Claim C4 as amended, at the quad scene with no samples, for pixel (1, 0) of a 2 by 1
  image.
\<close>

theorem zero_samples_not_finite_witness:
  "samples (quad_setup quad_raycaster 0 5) = 0 \<and> (1::nat) < 2 \<and> (0::nat) < 1
   \<and> rgb (fst (render (quad_setup quad_raycaster 0 5) 2 1 0)) (1, 0) = (NaN, NaN, NaN)"
  using zero_samples_not_finite [of "quad_setup quad_raycaster 0 5" 1 2 0 1 0] by simp


section \<open>Throughput along a path\<close>


lemma baseColor_real:
  assumes "nonneg_vec (hit_texel S h)" and "vec_in_range (vpowr (hit_texel S h) (22 / 10))"
  shows "hit_baseColor S h = color_of (vpowr (hit_texel S h) (22 / 10))"
proof -
  obtain a b c where t: "hit_texel S h = (a, b, c)" by (cases "hit_texel S h")
  with assms show ?thesis
    by (simp add: hit_baseColor_def t fl_of_in_range not_less [symmetric])
qed

lemma fvdot_real:
  assumes "dot_in_range n d"
  shows "fvdot (fvec_of n) (fvec_of d) = Fin (vdot n d)"
proof -
  obtain a b c where n: "n = (a, b, c)" by (cases n)
  obtain e f g where d: "d = (e, f, g)" by (cases d)
  from assms show ?thesis
    by (simp add: n d fl_of_in_range)
qed

lemma fmax_zero_real: "fmax (Fin a) (Fin 0) = Fin (max a 0)"
  by (simp add: fmax_def max_def)

lemma single_light_real:
  assumes "lights sc = [l]" and "visible l p rc = (True, d, k)"
    and "dot_in_range n d" and "in_range (k * max (vdot n d) 0)"
    and "vec_in_range (smul (k * max (vdot n d) 0) (intensity l))"
  shows "illumination_at sc rc p n = color_of (smul (k * max (vdot n d) 0) (intensity l))"
proof -
  obtain a b c where i: "intensity l = (a, b, c)" by (cases "intensity l")
  from assms(3-5) show ?thesis
    by (simp add: illumination_at_def light_term_def assms(1,2) fvdot_real fmax_zero_real
        fl_of_in_range i Let_def)
qed

lemma radiance_one_real:
  assumes "vec_in_range b" and "vec_in_range (vmul b i)"
  shows "radiance [(color_of b, color_of i)] white black = color_of (vmul b i)"
proof -
  obtain b1 b2 b3 where b: "b = (b1, b2, b3)" by (cases b)
  obtain i1 i2 i3 where i: "i = (i1, i2, i3)" by (cases i)
  from assms show ?thesis
    by (simp add: b i white_def black_def fl_of_in_range)
qed


lemma depth_one_sample:
  assumes "depth S = 1" and "hit (path_hit S (sample_start S w h x y g))"
  shows "fst (trace_sample S w h x y g) =
      radiance [(hit_baseColor S (path_hit S (sample_start S w h x y g)),
                 hit_illumination S (sample_start S w h x y g) (path_hit S (sample_start S w h x y g)))]
        white black"
  using assms
  by (simp add: trace_sample_start path_loop_iter path_loop_stop path_step_hit sample_start_def)



lemma powr22_bounds:
  assumes "1 \<le> (x::real)"
  shows "1 \<le> x powr (22 / 10)" and "x powr (22 / 10) \<le> x ^ 3"
proof -
  show "1 \<le> x powr (22 / 10)"
    using assms by (intro ge_one_powr_ge_zero) simp_all
  have "x powr (22 / 10) \<le> x powr 3"
    using assms by (intro powr_mono) simp_all
  also have "x powr 3 = x ^ 3"
    using assms by (simp add: powr_numeral)
  finally show "x powr (22 / 10) \<le> x ^ 3" .
qed

lemma powr_gamma_bounds:
  assumes "1 \<le> (x::real)"
  shows "1 \<le> x powr (1 / (22 / 10))" and "x powr (1 / (22 / 10)) \<le> x"
proof -
  show "1 \<le> x powr (1 / (22 / 10))"
    using assms by (intro ge_one_powr_ge_zero) simp_all
  have "x powr (1 / (22 / 10)) \<le> x powr 1"
    using assms by (intro powr_mono) simp_all
  then show "x powr (1 / (22 / 10)) \<le> x"
    using assms by simp
qed

lemma in_range_powr22:
  assumes "1 \<le> x" and "x \<le> 1000" and "1 \<le> k" and "k \<le> 1000"
  shows "in_range (x powr (22 / 10) * k)"
proof (rule in_range_bounds)
  have a: "1 \<le> x powr (22 / 10)" and b: "x powr (22 / 10) \<le> x ^ 3"
    using assms(1) by (rule powr22_bounds)+
  have "x ^ 3 \<le> 1000 ^ 3"
    using assms(1,2) by (intro power_mono) simp_all
  with b have c: "x powr (22 / 10) \<le> 1000 ^ 3" by linarith
  have "1 * 1 \<le> x powr (22 / 10) * k"
    using a assms(3) by (intro mult_mono) simp_all
  then have lo: "1 \<le> x powr (22 / 10) * k" by simp
  have "x powr (22 / 10) * k \<le> 1000 ^ 3 * 1000"
    using a c assms(3,4) by (intro mult_mono) simp_all
  then have hi: "x powr (22 / 10) * k \<le> 2 ^ 100" by simp
  from lo show "1 / 2 ^ 100 \<le> \<bar>x powr (22 / 10) * k\<bar>" by simp
  from lo hi show "\<bar>x powr (22 / 10) * k\<bar> \<le> 2 ^ 100" by simp
qed

lemma in_range_powr_gamma:
  assumes "1 \<le> x" and "x \<le> 1000"
  shows "in_range (x powr (1 / (22 / 10)))"
proof (rule in_range_bounds)
  have a: "1 \<le> x powr (1 / (22 / 10))" and b: "x powr (1 / (22 / 10)) \<le> x"
    using assms(1) by (rule powr_gamma_bounds)+
  from a show "1 / 2 ^ 100 \<le> \<bar>x powr (1 / (22 / 10))\<bar>" by simp
  from a b assms(2) show "\<bar>x powr (1 / (22 / 10))\<bar> \<le> 2 ^ 100" by simp
qed

lemma in_range_small:
  "1 \<le> r \<Longrightarrow> r \<le> 1000 \<Longrightarrow> in_range r"
  by (rule in_range_bounds) simp_all

lemma slab_setup_simps [simp]:
  "samples (slab_setup r tex l n d) = n" "depth (slab_setup r tex l n d) = d"
  "raycaster (slab_setup r tex l n d) = floor_raycaster" "random (slab_setup r tex l n d) = r"
  "lights (scene (slab_setup r tex l n d)) = [l]"
  by (simp_all add: slab_setup_def)

lemma slab_hit [simp]:
  "hit (path_hit (slab_setup r tex l n d) st)"
  "dist_hit (path_hit (slab_setup r tex l n d) st) = 1"
  "hit_texel (slab_setup r tex l n d) h = tex"
  "hit_normal (slab_setup r tex l n d) h = (0, 0, 1)"
  by (simp_all add: path_hit_def hit_texel_def hit_normal_def hit_uv_def slab_setup_def
      floor_raycaster_def)

lemma lamp_simps [simp]:
  "visible (lamp k d i) p rc = (True, d, k)" "intensity (lamp k d i) = i"
  by (simp_all add: lamp_def)

text \<open>The lamp of the witnesses: attenuation 1/2, cosine 4/5, illumination (2, 4, 6).\<close>

lemma slab_illumination:
  "hit_illumination (slab_setup r tex (lamp (1 / 2) (0, 3 / 5, 4 / 5) (5, 10, 15)) n d) st h
     = color_of (2, 4, 6)"
proof -
  have "illumination_at (scene (slab_setup r tex (lamp (1 / 2) (0, 3 / 5, 4 / 5) (5, 10, 15)) n d))
      floor_raycaster (hit_point st h) (0, 0, 1)
    = color_of (smul (1 / 2 * max (vdot (0, 0, 1) (0, 3 / 5, 4 / 5)) 0) (5, 10, 15))"
    using single_light_real [of "scene (slab_setup r tex (lamp (1 / 2) (0, 3 / 5, 4 / 5) (5, 10, 15)) n d)"
        "lamp (1 / 2) (0, 3 / 5, 4 / 5) (5, 10, 15)" "hit_point st h" floor_raycaster
        "(0, 3 / 5, 4 / 5)" "1 / 2" "(0, 0, 1)"]
    by (simp add: in_range_small in_range_bounds)
  then show ?thesis by (simp add: hit_illumination_def)
qed

lemma slab_sample_gen:
  "snd (trace_sample (slab_setup half_random tex l n (Suc 0)) w h x y g) = Suc (Suc g)"
  by (simp add: trace_sample_start path_loop_iter path_loop_stop path_step_hit sample_start_def
      half_random_def)

lemma slab_base_234:
  "hit_baseColor (slab_setup r (2, 3, 4) l n d) h
     = color_of (2 powr (22 / 10), 3 powr (22 / 10), 4 powr (22 / 10))"
  using baseColor_real [of "slab_setup r (2, 3, 4) l n d" h]
    in_range_powr22 [of 2 1] in_range_powr22 [of 3 1] in_range_powr22 [of 4 1]
  by simp

lemma slab_base_111:
  "hit_baseColor (slab_setup r (1, 1, 1) l n d) h = color_of (1, 1, 1)"
  by (simp add: hit_baseColor_def)



section \<open>The average and the gamma encoding\<close>

lemma in_range_gamma:
  assumes "0 \<le> z" and "in_range z"
  shows "in_range (z powr (1 / (22 / 10)))"
proof (cases "z = 0")
  case True
  then show ?thesis by simp
next
  case False
  with assms have pos: "0 < z" and lo: "flt_under < z" and hi: "z < flt_over"
    by (auto simp: in_range_def)
  show ?thesis
  proof (cases "1 \<le> z")
    case True
    then have "1 \<le> z powr (1 / (22 / 10))" and "z powr (1 / (22 / 10)) \<le> z"
      by (rule powr_gamma_bounds)+
    moreover have "flt_under < 1" by (simp add: flt_under_def)
    ultimately show ?thesis using hi by (simp add: in_range_def)
  next
    case False
    then have le: "z \<le> 1" by simp
    have "z powr 1 \<le> z powr (1 / (22 / 10))"
      using pos le by (intro powr_mono') simp_all
    then have a: "z \<le> z powr (1 / (22 / 10))" using pos by simp
    have b: "z powr (1 / (22 / 10)) \<le> 1"
      using pos le by (intro powr_le1) simp_all
    have "(1::real) < flt_over" by (simp add: flt_over_def)
    with a b lo show ?thesis by (simp add: in_range_def)
  qed
qed

lemma encode_real:
  assumes "0 < n" and "0 \<le> a" and "in_range (a / real n)"
  shows "fpow (fdivn (Fin a) n) (1 / (22 / 10)) = Fin ((a / real n) powr (1 / (22 / 10)))"
proof -
  have "0 \<le> a / real n" using assms(1,2) by simp
  then have "in_range ((a / real n) powr (1 / (22 / 10)))"
    using assms(3) by (rule in_range_gamma)
  then show ?thesis
    using assms \<open>0 \<le> a / real n\<close> by (simp add: fl_of_in_range not_less [symmetric])
qed

lemma slab_sample_111:
  "fst (trace_sample (slab_setup r (1, 1, 1) (lamp (1 / 2) (0, 3 / 5, 4 / 5) (5, 10, 15)) n (Suc 0))
      w h x y g) = color_of (2, 4, 6)"
  using depth_one_sample [of "slab_setup r (1, 1, 1) (lamp (1 / 2) (0, 3 / 5, 4 / 5) (5, 10, 15)) n (Suc 0)"
      w h x y g]
    radiance_one_real [of "(1, 1, 1)" "(2, 4, 6)"]
  by (simp add: slab_base_111 slab_illumination in_range_small)

lemma shade_pixel_two_samples:
  "samples S = Suc (Suc 0) \<Longrightarrow>
     shade_pixel S y x s = shade_sample S y x 1 (shade_sample S y x 0 s)"
  by (simp add: shade_pixel_def)

text \<open>
  Claim C7. Every pixel of the output is the accumulator that the shading pass left,
  divided by \<^verbatim>\<open>float(samples)\<close> and then raised by channel to the power 1/2.2, with
  nothing clamped in between. For a finite accumulator \<open>(a, b, c)\<close> that is not negative,
  at least one sample and averages in range, the channels of the pixel are
  \<open>(a / n) powr (1 / 2.2)\<close>, \<open>(b / n) powr (1 / 2.2)\<close> and \<open>(c / n) powr (1 / 2.2)\<close>, and
  an average above 1 is still above 1 after the encoding.
\<close>

theorem pixel_average_then_gamma:
  assumes "x < w" and "y < h"
  shows "rgb (fst (render S w h g)) (x, y) =
      color_pow (color_div (rgb (fst (shading_pass S (Image_new w h, g))) (x, y)) (samples S))
        (1 / (22 / 10))
    \<and> (rgb (fst (shading_pass S (Image_new w h, g))) (x, y) = (Fin a, Fin b, Fin c) \<longrightarrow>
         0 < samples S \<longrightarrow> 0 \<le> a \<longrightarrow> 0 \<le> b \<longrightarrow> 0 \<le> c \<longrightarrow>
         in_range (a / real (samples S)) \<longrightarrow> in_range (b / real (samples S)) \<longrightarrow>
         in_range (c / real (samples S)) \<longrightarrow>
         rgb (fst (render S w h g)) (x, y) =
           (Fin ((a / real (samples S)) powr (1 / (22 / 10))),
            Fin ((b / real (samples S)) powr (1 / (22 / 10))),
            Fin ((c / real (samples S)) powr (1 / (22 / 10))))
         \<and> (1 < a / real (samples S) \<longrightarrow> 1 < (a / real (samples S)) powr (1 / (22 / 10))))"
proof -
  have lifted: "rgb (fst (render S w h g)) (x, y) =
      color_pow (color_div (rgb (fst (shading_pass S (Image_new w h, g))) (x, y)) (samples S))
        (1 / (22 / 10))"
    using assms by (simp add: render_pixel encode_def)
  have reals: "rgb (fst (shading_pass S (Image_new w h, g))) (x, y) = (Fin a, Fin b, Fin c) \<longrightarrow>
         0 < samples S \<longrightarrow> 0 \<le> a \<longrightarrow> 0 \<le> b \<longrightarrow> 0 \<le> c \<longrightarrow>
         in_range (a / real (samples S)) \<longrightarrow> in_range (b / real (samples S)) \<longrightarrow>
         in_range (c / real (samples S)) \<longrightarrow>
         rgb (fst (render S w h g)) (x, y) =
           (Fin ((a / real (samples S)) powr (1 / (22 / 10))),
            Fin ((b / real (samples S)) powr (1 / (22 / 10))),
            Fin ((c / real (samples S)) powr (1 / (22 / 10))))
         \<and> (1 < a / real (samples S) \<longrightarrow> 1 < (a / real (samples S)) powr (1 / (22 / 10)))"
    using lifted encode_real [of "samples S"] by simp
  from lifted reals show ?thesis by blast
qed

text \<open>
  Claim C7, at the only pixel of the second scene with two samples of colour \<open>(2, 4, 6)\<close>
  each: the accumulator is \<open>(4, 8, 12)\<close>, its average \<open>(2, 4, 6)\<close>, every channel above 1
  before and after the encoding.
\<close>

theorem pixel_average_then_gamma_witness:
  "rgb (fst (shading_pass (slab_setup half_random (1, 1, 1) (lamp (1 / 2) (0, 3 / 5, 4 / 5) (5, 10, 15)) 2 1)
       (Image_new 1 1, 0))) (0, 0) = (Fin 4, Fin 8, Fin 12)
   \<and> rgb (fst (render (slab_setup half_random (1, 1, 1) (lamp (1 / 2) (0, 3 / 5, 4 / 5) (5, 10, 15)) 2 1)
        1 1 0)) (0, 0)
       = (Fin ((4 / 2) powr (1 / (22 / 10))), Fin ((8 / 2) powr (1 / (22 / 10))),
          Fin ((12 / 2) powr (1 / (22 / 10))))
   \<and> (1::real) < (4 / 2) powr (1 / (22 / 10))"
proof -
  let ?S = "slab_setup half_random (1, 1, 1) (lamp (1 / 2) (0, 3 / 5, 4 / 5) (5, 10, 15)) 2 1"
  have acc: "rgb (fst (shading_pass ?S (Image_new 1 1, 0))) (0, 0) = (Fin 4, Fin 8, Fin 12)"
    by (simp add: shading_pass_one_pixel shade_pixel_two_samples numeral_2_eq_2 shade_sample_eq
        slab_sample_111 black_def fl_eval)
  note T = pixel_average_then_gamma [where S = ?S and x = 0 and w = 1 and y = 0 and h = 1 and g = 0
      and a = 4 and b = 8 and c = 12, THEN conjunct2, rule_format]
  have "rgb (fst (render ?S 1 1 0)) (0, 0)
       = (Fin ((4 / 2) powr (1 / (22 / 10))), Fin ((8 / 2) powr (1 / (22 / 10))),
          Fin ((12 / 2) powr (1 / (22 / 10))))
    \<and> (1 < 4 / real (samples ?S) \<longrightarrow> 1 < (4 / real (samples ?S)) powr (1 / (22 / 10)))"
    using T acc by (simp add: in_range_small)
  with acc show ?thesis by simp
qed


section \<open>The rows of the two passes\<close>

lemma fold_log: "fold (\<lambda>i ys. ys @ [i]) xs acc = acc @ xs"
  by (induction xs arbitrary: acc) simp_all

lemma shade_sample_agree:
  "row_agree y u v \<Longrightarrow> row_agree y (shade_sample S y x sid u) (shade_sample S y x sid v)"
  by (simp add: row_agree_def shade_sample_eq)

lemma shade_pixel_agree:
  "row_agree y u v \<Longrightarrow> row_agree y (shade_pixel S y x u) (shade_pixel S y x v)"
  unfolding shade_pixel_def
  by (rule fold_related [where R = "row_agree y"]) (simp_all add: shade_sample_agree)

lemma shade_row_agree:
  assumes "row_agree y u v"
  shows "row_agree y (shade_row S y u) (shade_row S y v)"
proof -
  have w: "width (fst u) = width (fst v)"
    using assms by (simp add: row_agree_def)
  show ?thesis
    unfolding shade_row_def w
    by (rule fold_related [where R = "row_agree y"]) (simp_all add: assms shade_pixel_agree)
qed

text \<open>The rows that the workers of the rows before \<open>k\<close> have not reached are as they were.\<close>

lemma shade_rows_frame:
  "\<not> y < k \<Longrightarrow> rgb (fst (fold (shade_row S) [0..<k] s)) (x, y) = rgb (fst s) (x, y)"
  by (induction k) (simp_all add: shade_row_frame)

text \<open>
  After the workers of the rows before \<open>k\<close>, a row \<open>y\<close> before \<open>k\<close> is what its worker
  makes of the image as it was, from the generator that the rows before \<open>y\<close> left.
\<close>

lemma shade_rows_pixel:
  "y < k \<Longrightarrow> rgb (fst (fold (shade_row S) [0..<k] s)) (x, y) =
     rgb (fst (shade_row S y (fst s, snd (fold (shade_row S) [0..<y] s)))) (x, y)"
proof (induction k)
  case 0
  then show ?case by simp
next
  case (Suc k)
  show ?case
  proof (cases "y = k")
    case True
    let ?u = "fold (shade_row S) [0..<k] s"
    have "row_agree k ?u (fst s, snd ?u)"
      using shade_rows_dims [of S "[0..<k]" s]
      by (simp add: row_agree_def shade_rows_frame)
    then have "row_agree k (shade_row S k ?u) (shade_row S k (fst s, snd ?u))"
      by (rule shade_row_agree)
    then have "rgb (fst (shade_row S k ?u)) (x, k) = rgb (fst (shade_row S k (fst s, snd ?u))) (x, k)"
      by (simp add: row_agree_def)
    with True show ?thesis by simp
  next
    case False
    with Suc.prems have lt: "y < k" by simp
    have "rgb (fst (fold (shade_row S) [0..<Suc k] s)) (x, y)
        = rgb (fst (fold (shade_row S) [0..<k] s)) (x, y)"
      using False by (simp add: shade_row_frame)
    with Suc.IH [OF lt] show ?thesis by simp
  qed
qed

text \<open>
  Claim C8. The worker of row \<open>y\<close> of either pass leaves the pixels of every other row
  and the dimensions of the image as they were, and what it writes to row \<open>y\<close>, with the
  generator it hands on, depends on the image only through row \<open>y\<close> and the dimensions.
  The scheduler runs the worker once on every index from \<open>low\<close> up to \<open>high\<close>. Run by it
  over the rows of the image, the shading pass leaves in a pixel of row \<open>y\<close> what the
  worker of row \<open>y\<close> writes there, started on the generator as the rows before \<open>y\<close> left
  it, and the gamma pass leaves there what \<open>gamma_row\<close> of row \<open>y\<close> makes of the pixel;
  a row at or beyond the height is touched by neither pass.
\<close>

theorem row_workers_touch_own_row:
  "(y' \<noteq> y \<longrightarrow>
      rgb (fst (shade_row S y (img, g))) (x', y') = rgb img (x', y')
      \<and> rgb (gamma_row n y img) (x', y') = rgb img (x', y'))
   \<and> width (fst (shade_row S y (img, g))) = width img
   \<and> height (fst (shade_row S y (img, g))) = height img
   \<and> width (gamma_row n y img) = width img
   \<and> height (gamma_row n y img) = height img
   \<and> (width img2 = width img \<and> height img2 = height img
        \<and> (\<forall>x. rgb img2 (x, y) = rgb img (x, y)) \<longrightarrow>
          (\<forall>x. rgb (fst (shade_row S y (img2, g))) (x, y) = rgb (fst (shade_row S y (img, g))) (x, y))
          \<and> snd (shade_row S y (img2, g)) = snd (shade_row S y (img, g))
          \<and> (\<forall>x. rgb (gamma_row n y img2) (x, y) = rgb (gamma_row n y img) (x, y)))
   \<and> forParallel low high (\<lambda>i ys. ys @ [i]) [] = [low..<high]
   \<and> (y < height img \<longrightarrow>
        rgb (fst (shading_pass S (img, g))) (x', y) =
          rgb (fst (shade_row S y (img, snd (forParallel 0 y (shade_row S) (img, g))))) (x', y)
        \<and> rgb (gamma_pass n img) (x', y) = rgb (gamma_row n y img) (x', y))
   \<and> (\<not> y < height img \<longrightarrow>
        rgb (fst (shading_pass S (img, g))) (x', y) = rgb img (x', y)
        \<and> rgb (gamma_pass n img) (x', y) = rgb img (x', y))"
proof -
  have frame: "y' \<noteq> y \<longrightarrow>
      rgb (fst (shade_row S y (img, g))) (x', y') = rgb img (x', y')
      \<and> rgb (gamma_row n y img) (x', y') = rgb img (x', y')"
    by (simp add: shade_row_frame gamma_row_simps)
  have dims: "width (fst (shade_row S y (img, g))) = width img"
      "height (fst (shade_row S y (img, g))) = height img"
      "width (gamma_row n y img) = width img"
      "height (gamma_row n y img) = height img"
    using shade_row_dims [of S y "(img, g)"] by (simp_all add: gamma_row_simps)
  have reads: "width img2 = width img \<and> height img2 = height img
        \<and> (\<forall>x. rgb img2 (x, y) = rgb img (x, y)) \<longrightarrow>
          (\<forall>x. rgb (fst (shade_row S y (img2, g))) (x, y) = rgb (fst (shade_row S y (img, g))) (x, y))
          \<and> snd (shade_row S y (img2, g)) = snd (shade_row S y (img, g))
          \<and> (\<forall>x. rgb (gamma_row n y img2) (x, y) = rgb (gamma_row n y img) (x, y))"
  proof
    assume a: "width img2 = width img \<and> height img2 = height img
        \<and> (\<forall>x. rgb img2 (x, y) = rgb img (x, y))"
    then have "row_agree y (img2, g) (img, g)"
      by (simp add: row_agree_def)
    then have "row_agree y (shade_row S y (img2, g)) (shade_row S y (img, g))"
      by (rule shade_row_agree)
    then show "(\<forall>x. rgb (fst (shade_row S y (img2, g))) (x, y) = rgb (fst (shade_row S y (img, g))) (x, y))
          \<and> snd (shade_row S y (img2, g)) = snd (shade_row S y (img, g))
          \<and> (\<forall>x. rgb (gamma_row n y img2) (x, y) = rgb (gamma_row n y img) (x, y))"
      using a by (simp add: row_agree_def gamma_row_simps)
  qed
  have sched: "forParallel low high (\<lambda>i ys. ys @ [i]) [] = [low..<high]"
    by (simp add: forParallel_def fold_log)
  have every: "y < height img \<longrightarrow>
        rgb (fst (shading_pass S (img, g))) (x', y) =
          rgb (fst (shade_row S y (img, snd (forParallel 0 y (shade_row S) (img, g))))) (x', y)
        \<and> rgb (gamma_pass n img) (x', y) = rgb (gamma_row n y img) (x', y)"
    using shade_rows_pixel [of y "height img" S "(img, g)" x']
    by (simp add: shading_pass_def forParallel_def gamma_pass_simps gamma_row_simps)
  have beyond: "\<not> y < height img \<longrightarrow>
        rgb (fst (shading_pass S (img, g))) (x', y) = rgb img (x', y)
        \<and> rgb (gamma_pass n img) (x', y) = rgb img (x', y)"
    using shade_rows_frame [of y "height img" S "(img, g)" x']
    by (simp add: shading_pass_def forParallel_def gamma_pass_simps)
  from frame dims reads sched every beyond show ?thesis by blast
qed

lemma shade_row_one_column:
  "width (fst s) = Suc 0 \<Longrightarrow> shade_row S y s = shade_pixel S y 0 s"
  by (simp add: shade_row_def)

lemma slab_shade_row:
  "shade_row (slab_setup half_random (1, 1, 1) (lamp (1 / 2) (0, 3 / 5, 4 / 5) (5, 10, 15)) (Suc 0) (Suc 0))
      y (Image_new (Suc 0) h, g)
   = (add_sample (Image_new (Suc 0) h) 0 y (color_of (2, 4, 6)), Suc (Suc g))"
  by (simp add: shade_row_one_column shade_pixel_one_sample shade_sample_eq slab_sample_111
      slab_sample_gen prod_eq_iff)

lemma encode_4_8_12:
  "encode 2 (Fin 4, Fin 8, Fin 12)
     = (Fin (2 powr (1 / (22 / 10))), Fin (4 powr (1 / (22 / 10))), Fin (6 powr (1 / (22 / 10))))"
  using encode_real [of 2 4] encode_real [of 2 8] encode_real [of 2 12]
  by (simp add: encode_def in_range_small)

text \<open>
  Claim C8, on a 1 by 2 image of the second scene, where every sample is \<open>(2, 4, 6)\<close>: the
  worker of row 0 writes pixel (0, 0) and leaves pixel (0, 1); the shading pass has written
  both rows; the worker of the second pass for row 0 encodes pixel (0, 0) of an image
  holding \<open>(4, 8, 12)\<close> twice and leaves pixel (0, 1), which the pass encodes too.
\<close>

theorem row_workers_touch_own_row_witness:
  "(1::nat) \<noteq> 0
   \<and> rgb (fst (shade_row (slab_setup half_random (1, 1, 1) (lamp (1 / 2) (0, 3 / 5, 4 / 5) (5, 10, 15)) 1 1)
        0 (Image_new 1 2, 0))) (0, 0) = color_of (2, 4, 6)
   \<and> rgb (fst (shade_row (slab_setup half_random (1, 1, 1) (lamp (1 / 2) (0, 3 / 5, 4 / 5) (5, 10, 15)) 1 1)
        0 (Image_new 1 2, 0))) (0, 1) = black
   \<and> rgb (fst (shading_pass (slab_setup half_random (1, 1, 1) (lamp (1 / 2) (0, 3 / 5, 4 / 5) (5, 10, 15)) 1 1)
        (Image_new 1 2, 0))) (0, 0) = color_of (2, 4, 6)
   \<and> rgb (fst (shading_pass (slab_setup half_random (1, 1, 1) (lamp (1 / 2) (0, 3 / 5, 4 / 5) (5, 10, 15)) 1 1)
        (Image_new 1 2, 0))) (0, 1) = color_of (2, 4, 6)
   \<and> rgb (gamma_row 2 0 (add_sample (add_sample (Image_new 1 2) 0 0 (color_of (4, 8, 12))) 0 1
          (color_of (4, 8, 12)))) (0, 0)
       = (Fin (2 powr (1 / (22 / 10))), Fin (4 powr (1 / (22 / 10))), Fin (6 powr (1 / (22 / 10))))
   \<and> rgb (gamma_row 2 0 (add_sample (add_sample (Image_new 1 2) 0 0 (color_of (4, 8, 12))) 0 1
          (color_of (4, 8, 12)))) (0, 1) = color_of (4, 8, 12)
   \<and> rgb (gamma_pass 2 (add_sample (add_sample (Image_new 1 2) 0 0 (color_of (4, 8, 12))) 0 1
          (color_of (4, 8, 12)))) (0, 1)
       = (Fin (2 powr (1 / (22 / 10))), Fin (4 powr (1 / (22 / 10))), Fin (6 powr (1 / (22 / 10))))
   \<and> rgb (fst (shade_row (slab_setup half_random (1, 1, 1) (lamp (1 / 2) (0, 3 / 5, 4 / 5) (5, 10, 15)) 1 1)
        0 (add_sample (Image_new 1 2) 0 1 white, 0))) (0, 0)
       = rgb (fst (shade_row (slab_setup half_random (1, 1, 1) (lamp (1 / 2) (0, 3 / 5, 4 / 5) (5, 10, 15)) 1 1)
        0 (Image_new 1 2, 0))) (0, 0)
   \<and> forParallel 0 2 (\<lambda>i ys. ys @ [i]) [] = [0, 1]"
proof -
  let ?S = "slab_setup half_random (1, 1, 1) (lamp (1 / 2) (0, 3 / 5, 4 / 5) (5, 10, 15)) 1 1"
  let ?full = "add_sample (add_sample (Image_new 1 2) 0 0 (color_of (4, 8, 12))) 0 1 (color_of (4, 8, 12))"
  note A = row_workers_touch_own_row [where y' = 1 and y = 0 and x' = 0 and S = ?S
      and img = "Image_new 1 2" and g = 0 and n = 2
      and ?img2.0 = "add_sample (Image_new 1 2) 0 1 white" and low = 0 and high = 2]
  note B = row_workers_touch_own_row [where y' = 0 and y = 1 and x' = 0 and S = ?S
      and img = "Image_new 1 2" and g = 0 and n = 2 and ?img2.0 = "Image_new 1 2"
      and low = 0 and high = 2]
  note C = row_workers_touch_own_row [where y' = 1 and y = 0 and x' = 0 and S = ?S
      and img = ?full and g = 0 and n = 2 and ?img2.0 = ?full and low = 0 and high = 2]
  note D = row_workers_touch_own_row [where y' = 0 and y = 1 and x' = 0 and S = ?S
      and img = ?full and g = 0 and n = 2 and ?img2.0 = ?full and low = 0 and high = 2]
  have row0: "rgb (fst (shade_row ?S 0 (Image_new 1 2, 0))) (0, 0) = color_of (2, 4, 6)"
    by (simp add: slab_shade_row black_def fl_eval)
  have other: "rgb (fst (shade_row ?S 0 (Image_new 1 2, 0))) (0, 1) = black"
    using A by simp
  have pass0: "rgb (fst (shading_pass ?S (Image_new 1 2, 0))) (0, 0) = color_of (2, 4, 6)"
    using A row0 by (simp add: forParallel_def)
  have pass1: "rgb (fst (shading_pass ?S (Image_new 1 2, 0))) (0, 1) = color_of (2, 4, 6)"
    using B by (simp add: forParallel_def slab_shade_row black_def fl_eval)
  have full: "rgb ?full (0, 0) = (Fin 4, Fin 8, Fin 12)" "rgb ?full (0, 1) = (Fin 4, Fin 8, Fin 12)"
    by (simp_all add: black_def fl_eval)
  have g0: "rgb (gamma_row 2 0 ?full) (0, 0)
       = (Fin (2 powr (1 / (22 / 10))), Fin (4 powr (1 / (22 / 10))), Fin (6 powr (1 / (22 / 10))))"
    using full by (simp add: gamma_row_simps encode_4_8_12)
  have g1: "rgb (gamma_row 2 0 ?full) (0, 1) = color_of (4, 8, 12)"
    using C full by simp
  have gp: "rgb (gamma_pass 2 ?full) (0, 1)
       = (Fin (2 powr (1 / (22 / 10))), Fin (4 powr (1 / (22 / 10))), Fin (6 powr (1 / (22 / 10))))"
    using D full by (simp add: gamma_row_simps encode_4_8_12)
  have rd: "rgb (fst (shade_row ?S 0 (add_sample (Image_new 1 2) 0 1 white, 0))) (0, 0)
       = rgb (fst (shade_row ?S 0 (Image_new 1 2, 0))) (0, 0)"
    using A by simp
  have lg: "forParallel 0 2 (\<lambda>i ys. ys @ [i]) [] = [0, 1]"
    using A by (simp add: upt_rec)
  from row0 other pass0 pass1 g0 g1 gp rd lg show ?thesis by simp
qed

section \<open>The next ray\<close>

lemma flt_bounds: "flt_under = 1 / 2 ^ 150" "1 < flt_over" "flt_under < 1"
  by (simp_all add: flt_under_def flt_over_def)

lemma tiny_square:
  assumes "\<bar>a\<bar> \<le> 1 / 2 ^ 75"
  shows "fl_of (a * a) = Fin 0"
proof -
  have "\<bar>a\<bar> * \<bar>a\<bar> \<le> (1 / 2 ^ 75) * (1 / 2 ^ 75)"
    using assms by (intro mult_mono) simp_all
  then have le: "a * a \<le> 1 / 2 ^ 150" by (simp add: abs_mult_self_eq)
  have nn: "0 \<le> a * a" by simp
  have "(1::real) / 2 ^ 150 \<le> 1" by simp
  with le nn flt_bounds have "\<not> flt_over \<le> a * a" "\<not> a * a \<le> - flt_over"
    "\<bar>a * a\<bar> \<le> flt_under"
    by linarith+
  then show ?thesis by (simp add: fl_of_def)
qed

lemma tiny_sum:
  assumes "\<bar>a\<bar> \<le> 1 / 2 ^ 75"
  shows "\<exists>a'. fl_of a = Fin a' \<and> \<bar>a'\<bar> \<le> 1 / 2 ^ 75 \<and> (a' = 0 \<or> a' = a)"
proof -
  have "(1::real) / 2 ^ 75 < 2 ^ 128 - 2 ^ 103" by simp
  with assms have "\<not> flt_over \<le> a" "\<not> a \<le> - flt_over"
    by (simp_all add: flt_over_def)
  then show ?thesis using assms by (auto simp: fl_of_def)
qed

lemma normalize_tiny:
  assumes "\<bar>a\<bar> \<le> 1 / 2 ^ 75" and "\<bar>b\<bar> \<le> 1 / 2 ^ 75" and "\<bar>c\<bar> \<le> 1 / 2 ^ 75"
  shows "normalize_vec (Fin a, Fin b, Fin c) = (inf_times a PInf, inf_times b PInf, inf_times c PInf)"
  using assms by (simp add: normalize_vec_def tiny_square)

lemma inf_times_not_finite [simp]: "not_finite (inf_times a PInf)"
  by (simp add: inf_times_def)

lemma normalize_tiny_sum:
  assumes "tiny (vadd n s)"
  shows "case normalize_vec (fvadd (fvec_of n) (fvec_of s)) of
           (u1, u2, u3) \<Rightarrow> not_finite u1 \<and> not_finite u2 \<and> not_finite u3"
proof -
  obtain n1 n2 n3 where n: "n = (n1, n2, n3)" by (cases n)
  obtain s1 s2 s3 where s: "s = (s1, s2, s3)" by (cases s)
  from assms have t: "\<bar>n1 + s1\<bar> \<le> 1 / 2 ^ 75" "\<bar>n2 + s2\<bar> \<le> 1 / 2 ^ 75" "\<bar>n3 + s3\<bar> \<le> 1 / 2 ^ 75"
    by (simp_all add: n s)
  obtain a where a: "fl_of (n1 + s1) = Fin a" "\<bar>a\<bar> \<le> 1 / 2 ^ 75" using tiny_sum [OF t(1)] by blast
  obtain b where b: "fl_of (n2 + s2) = Fin b" "\<bar>b\<bar> \<le> 1 / 2 ^ 75" using tiny_sum [OF t(2)] by blast
  obtain c where c: "fl_of (n3 + s3) = Fin c" "\<bar>c\<bar> \<le> 1 / 2 ^ 75" using tiny_sum [OF t(3)] by blast
  show ?thesis
    using normalize_tiny [OF a(2) b(2) c(2)] by (simp add: n s a(1) b(1) c(1))
qed

text \<open>Squares, their sums, the inverse root and the quotients of a comfortable vector are in range.\<close>

lemma comfy_square:
  assumes "comfy a"
  shows "a * a = 0 \<or> (1 / 2 ^ 120 \<le> a * a \<and> a * a \<le> 2 ^ 120)"
proof (cases "a = 0")
  case True
  then show ?thesis by simp
next
  case False
  with assms have lo: "1 / 2 ^ 60 \<le> \<bar>a\<bar>" and hi: "\<bar>a\<bar> \<le> 2 ^ 60"
    by (simp_all add: comfy_def)
  have "(1 / 2 ^ 60) * (1 / 2 ^ 60) \<le> \<bar>a\<bar> * \<bar>a\<bar>"
    using lo by (intro mult_mono) simp_all
  moreover have "\<bar>a\<bar> * \<bar>a\<bar> \<le> 2 ^ 60 * 2 ^ 60"
    using hi by (intro mult_mono) simp_all
  ultimately show ?thesis by (simp add: abs_mult_self_eq)
qed

lemma in_range_mid:
  assumes "r = 0 \<or> (1 / 2 ^ 125 \<le> \<bar>r\<bar> \<and> \<bar>r\<bar> \<le> 2 ^ 125)"
  shows "in_range r"
proof -
  have "flt_under < 1 / 2 ^ 125" by (simp add: flt_under_def)
  moreover have "(2::real) ^ 125 < flt_over" by (simp add: flt_over_def)
  ultimately show ?thesis using assms by (auto simp: in_range_def)
qed

lemma normalize_comfortable:
  assumes "comfortable (a, b, c)"
  shows "normalize_vec (Fin a, Fin b, Fin c) =
     fvec_of (smul (1 / sqrt (vdot (a, b, c) (a, b, c))) (a, b, c))"
proof -
  define q where "q = a * a + b * b + c * c"
  define k where "k = 1 / sqrt q"
  have ca: "comfy a" and cb: "comfy b" and cc: "comfy c" and nz: "a \<noteq> 0 \<or> b \<noteq> 0 \<or> c \<noteq> 0"
    using assms by simp_all
  note sa = comfy_square [OF ca] and sb = comfy_square [OF cb] and sc = comfy_square [OF cc]
  have nn: "0 \<le> a * a" "0 \<le> b * b" "0 \<le> c * c" by simp_all
  have ra: "in_range (a * a)" "in_range (b * b)" "in_range (c * c)"
    using sa sb sc by (auto intro!: in_range_mid)
  have rab: "in_range (a * a + b * b)"
    using sa sb nn by (intro in_range_mid) auto
  have qlo: "1 / 2 ^ 120 \<le> q"
  proof -
    from nz have "a * a \<noteq> 0 \<or> b * b \<noteq> 0 \<or> c * c \<noteq> 0" by simp
    with sa sb sc nn show ?thesis unfolding q_def by linarith
  qed
  have qhi: "q \<le> 2 ^ 122"
    using sa sb sc nn unfolding q_def by auto
  have qpos: "0 < q" using qlo by (smt (verit) divide_pos_pos zero_less_numeral zero_less_power)
  have rq: "in_range q"
    using qlo qhi qpos by (intro in_range_mid) simp
  have kpos: "0 < k" using qpos by (simp add: k_def)
  have kk: "k * k = 1 / q"
    using qpos by (simp add: k_def)
  have khi: "k \<le> 2 ^ 60"
  proof (rule power2_le_imp_le)
    have "1 / q \<le> 1 / (1 / 2 ^ 120)"
      using qlo by (intro divide_left_mono) (simp_all add: qpos)
    then have "k * k \<le> 2 ^ 120" by (simp add: kk)
    then show "k\<^sup>2 \<le> (2 ^ 60)\<^sup>2" by (simp add: power2_eq_square)
  qed simp
  have klo: "1 / 2 ^ 61 \<le> k"
  proof (rule power2_le_imp_le)
    have "1 / 2 ^ 122 \<le> 1 / q"
      using qhi qpos by (intro divide_left_mono) simp_all
    then have "1 / 2 ^ 122 \<le> k * k" by (simp add: kk)
    then show "(1 / 2 ^ 61)\<^sup>2 \<le> k\<^sup>2" by (simp add: power2_eq_square)
  qed (use kpos in simp)
  have rk: "in_range k"
    using klo khi kpos by (intro in_range_mid) simp
  have comp: "in_range (k * x)" if cx: "comfy x" and xq: "x * x \<le> q" for x
  proof (cases "x = 0")
    case True
    then show ?thesis by simp
  next
    case False
    with cx have lo: "1 / 2 ^ 60 \<le> \<bar>x\<bar>" by (simp add: comfy_def)
    have "(1 / 2 ^ 61) * (1 / 2 ^ 60) \<le> k * \<bar>x\<bar>"
      using klo lo by (intro mult_mono) simp_all
    then have l: "1 / 2 ^ 125 \<le> \<bar>k * x\<bar>"
      using kpos by (simp add: abs_mult)
    have "(k * x) * (k * x) = (x * x) / q"
      using kk by (simp add: algebra_simps) (metis mult.assoc mult.commute times_divide_eq_right mult.right_neutral)
    also have "\<dots> \<le> 1" using xq qpos by simp
    finally have "(k * x)\<^sup>2 \<le> 1\<^sup>2" by (simp add: power2_eq_square)
    then have "\<bar>k * x\<bar>\<^sup>2 \<le> 1\<^sup>2" by simp
    then have "\<bar>k * x\<bar> \<le> 1" by (rule power2_le_imp_le) simp
    with l show ?thesis by (intro in_range_mid) simp
  qed
  have xa: "a * a \<le> q" and xb: "b * b \<le> q" and xc: "c * c \<le> q"
    using nn by (simp_all add: q_def)
  have "normalize_vec (Fin a, Fin b, Fin c) = (Fin (k * a), Fin (k * b), Fin (k * c))"
    using ra rab rq rk comp [OF ca xa] comp [OF cb xb] comp [OF cc xc] qpos
    by (simp add: normalize_vec_def fl_of_in_range q_def [symmetric] k_def [symmetric])
  then show ?thesis by (simp add: q_def k_def)
qed

lemma unit_real:
  assumes "a \<noteq> 0 \<or> b \<noteq> 0 \<or> c \<noteq> 0"
  shows "vdot (smul (1 / sqrt (vdot (a, b, c) (a, b, c))) (a, b, c))
           (smul (1 / sqrt (vdot (a, b, c) (a, b, c))) (a, b, c)) = 1"
proof -
  define q where "q = a * a + b * b + c * c"
  define k where "k = 1 / sqrt q"
  have "0 \<le> a * a" "0 \<le> b * b" "0 \<le> c * c" by simp_all
  moreover from assms have "a * a \<noteq> 0 \<or> b * b \<noteq> 0 \<or> c * c \<noteq> 0" by simp
  ultimately have pos: "0 < q" unfolding q_def by linarith
  have "k * k = 1 / (sqrt q * sqrt q)" by (simp add: k_def)
  also have "sqrt q * sqrt q = q" using pos by simp
  finally have kk: "k * k = 1 / q" .
  have "vdot (smul k (a, b, c)) (smul k (a, b, c)) = (k * k) * q"
    by (simp add: q_def algebra_simps)
  also have "\<dots> = 1" using pos by (simp add: kk)
  finally show ?thesis by (simp add: k_def q_def)
qed

lemma comfy_in_range: "comfy a \<Longrightarrow> in_range a"
  by (rule in_range_mid) (auto simp: comfy_def)

lemma normalize_comfortable_sum:
  assumes "comfortable (vadd n s)"
  shows "normalize_vec (fvadd (fvec_of n) (fvec_of s)) =
      fvec_of (smul (1 / sqrt (vdot (vadd n s) (vadd n s))) (vadd n s))
    \<and> vdot (smul (1 / sqrt (vdot (vadd n s) (vadd n s))) (vadd n s))
           (smul (1 / sqrt (vdot (vadd n s) (vadd n s))) (vadd n s)) = 1"
proof -
  obtain n1 n2 n3 where n: "n = (n1, n2, n3)" by (cases n)
  obtain s1 s2 s3 where s: "s = (s1, s2, s3)" by (cases s)
  from assms have c: "comfortable (n1 + s1, n2 + s2, n3 + s3)" by (simp add: n s)
  then have r: "in_range (n1 + s1)" "in_range (n2 + s2)" "in_range (n3 + s3)"
    by (simp_all add: comfy_in_range)
  have "fvadd (fvec_of n) (fvec_of s) = (Fin (n1 + s1), Fin (n2 + s2), Fin (n3 + s3))"
    using r by (simp add: n s fl_of_in_range)
  moreover from c have "n1 + s1 \<noteq> 0 \<or> n2 + s2 \<noteq> 0 \<or> n3 + s3 \<noteq> 0" by simp
  ultimately show ?thesis
    using normalize_comfortable [OF c] unit_real [of "n1 + s1" "n2 + s2" "n3 + s3"]
    by (simp add: n s)
qed

text \<open>
  Claim C5 says that a sum of normal and sphere point near zero is drawn again. Evaluated
  at bounce 0 of 2: on the quad, with normal \<open>(0, 0, 1)\<close> and sphere point \<open>(0, 0, -1)\<close>,
  the sum is zero, the direction of the next ray is \<open>(NaN, NaN, NaN)\<close> and the generator
  has moved by the one draw, from 2 to 3. On the second scene, with the sphere point
  \<open>(2^-100, 0, -1)\<close>, the sum is \<open>(2^-100, 0, 0)\<close>, its square underflows to zero, and the
  direction is \<open>(inf, NaN, NaN)\<close>, again after one draw.
\<close>

theorem zero_sum_not_resampled:
  "next_sum (quad_setup quad_raycaster 1 2) first_path = (0, 0, 0)
   \<and> path_step (quad_setup quad_raycaster 1 2) (Fin (1 / 2), Fin (1 / 2)) 0 first_path =
       Next (first_path\<lparr>attenColor := color_of (1, 1, 0), sampleColor := color_of (1, 1, 0),
          rayPos := fvec_of (0, 0, 0), rayDir := (NaN, NaN, NaN), gen := 3\<rparr>)
   \<and> snd (sampleSphere (random (quad_setup quad_raycaster 1 2)) (gen first_path)) = 3
   \<and> next_sum (slab_setup (sphere_random (1 / 2 ^ 100, 0, - 1)) (1, 1, 1)
         (lamp (1 / 2) (0, 3 / 5, 4 / 5) (5, 10, 15)) 1 2) first_path = (1 / 2 ^ 100, 0, 0)
   \<and> (case path_step (slab_setup (sphere_random (1 / 2 ^ 100, 0, - 1)) (1, 1, 1)
           (lamp (1 / 2) (0, 3 / 5, 4 / 5) (5, 10, 15)) 1 2) (Fin (1 / 2), Fin (1 / 2)) 0 first_path of
         Break st' \<Rightarrow> False
       | Next st' \<Rightarrow> rayDir st' = (PInf, NaN, NaN) \<and> gen st' = 3)"
  by (simp add: quad_step_hit quad_hit_values half_random_def next_sum_def path_hit_quad
      path_step_hit sphere_random_def normalize_vec_def fl_eval)

text \<open>
  Claim C5, as the code has it. At a hit that is not the last allowed bounce the next ray
  starts at the hit point, its direction is \<^verbatim>\<open>normalize(n + s)\<close> for one draw \<open>s\<close> of
  the sphere sampler, and the generator has moved by that one draw: nothing is drawn
  again. When every component of the sum is at most \<open>2^-75\<close> in magnitude, the squares
  underflow to zero and every component of the direction is an infinity or NaN. When the
  sum is not zero and each of its components is zero or between \<open>2^-60\<close> and \<open>2^60\<close> in
  magnitude, the direction is the sum divided by its length, and has length 1. At the last
  allowed bounce the ray and the generator stay as they are.
\<close>

theorem next_ray_single_draw:
  assumes "hit (path_hit S st)"
  shows "(case path_step S ndcPos did st of
        Break st' \<Rightarrow> False
      | Next st' \<Rightarrow>
          if did < depth S - 1 then
            rayPos st' = hit_point st (path_hit S st)
            \<and> rayDir st' = normalize_vec (fvadd (fvec_of (hit_normal S (path_hit S st)))
                              (fvec_of (fst (sampleSphere (random S) (gen st)))))
            \<and> gen st' = snd (sampleSphere (random S) (gen st))
            \<and> (tiny (next_sum S st) \<longrightarrow>
                 (case rayDir st' of (u1, u2, u3) \<Rightarrow> not_finite u1 \<and> not_finite u2 \<and> not_finite u3))
            \<and> (comfortable (next_sum S st) \<longrightarrow>
                 rayDir st' = fvec_of (smul (1 / sqrt (vdot (next_sum S st) (next_sum S st))) (next_sum S st))
                 \<and> vdot (smul (1 / sqrt (vdot (next_sum S st) (next_sum S st))) (next_sum S st))
                        (smul (1 / sqrt (vdot (next_sum S st) (next_sum S st))) (next_sum S st)) = 1)
          else rayPos st' = rayPos st \<and> rayDir st' = rayDir st \<and> gen st' = gen st)"
  using assms normalize_tiny_sum [of "hit_normal S (path_hit S st)" "fst (sampleSphere (random S) (gen st))"]
    normalize_comfortable_sum [of "hit_normal S (path_hit S st)" "fst (sampleSphere (random S) (gen st))"]
  by (simp add: path_step_hit next_sum_def)

text \<open>
  Claim C5 as amended, at bounce 0 of 2 on the second scene. With the sphere point
  \<open>(2^-100, 0, -1)\<close> the sum \<open>(2^-100, 0, 0)\<close> is tiny and the direction is
  \<open>(inf, NaN, NaN)\<close>; with the sphere point \<open>(0, 0, 1)\<close> the sum \<open>(0, 0, 2)\<close> is
  comfortable and the direction is \<open>(0, 0, 1)\<close>. Both rays start at the hit point
  \<open>(0, 0, 1)\<close> and the generator has moved from 2 to 3.
\<close>

theorem next_ray_single_draw_witness:
  "hit (path_hit (slab_setup (sphere_random (1 / 2 ^ 100, 0, - 1)) (1, 1, 1)
         (lamp (1 / 2) (0, 3 / 5, 4 / 5) (5, 10, 15)) 1 2) first_path)
   \<and> tiny (next_sum (slab_setup (sphere_random (1 / 2 ^ 100, 0, - 1)) (1, 1, 1)
         (lamp (1 / 2) (0, 3 / 5, 4 / 5) (5, 10, 15)) 1 2) first_path)
   \<and> (case path_step (slab_setup (sphere_random (1 / 2 ^ 100, 0, - 1)) (1, 1, 1)
           (lamp (1 / 2) (0, 3 / 5, 4 / 5) (5, 10, 15)) 1 2) (Fin (1 / 2), Fin (1 / 2)) 0 first_path of
         Break st' \<Rightarrow> False
       | Next st' \<Rightarrow> rayPos st' = fvec_of (0, 0, 1) \<and> rayDir st' = (PInf, NaN, NaN) \<and> gen st' = 3)
   \<and> comfortable (next_sum (slab_setup (sphere_random (0, 0, 1)) (1, 1, 1)
         (lamp (1 / 2) (0, 3 / 5, 4 / 5) (5, 10, 15)) 1 2) first_path)
   \<and> next_sum (slab_setup (sphere_random (0, 0, 1)) (1, 1, 1)
         (lamp (1 / 2) (0, 3 / 5, 4 / 5) (5, 10, 15)) 1 2) first_path = (0, 0, 2)
   \<and> (case path_step (slab_setup (sphere_random (0, 0, 1)) (1, 1, 1)
           (lamp (1 / 2) (0, 3 / 5, 4 / 5) (5, 10, 15)) 1 2) (Fin (1 / 2), Fin (1 / 2)) 0 first_path of
         Break st' \<Rightarrow> False
       | Next st' \<Rightarrow> rayPos st' = fvec_of (0, 0, 1) \<and> rayDir st' = fvec_of (0, 0, 1) \<and> gen st' = 3)"
proof -
  let ?A = "slab_setup (sphere_random (1 / 2 ^ 100, 0, - 1)) (1, 1, 1)
         (lamp (1 / 2) (0, 3 / 5, 4 / 5) (5, 10, 15)) 1 2"
  let ?B = "slab_setup (sphere_random (0, 0, 1)) (1, 1, 1)
         (lamp (1 / 2) (0, 3 / 5, 4 / 5) (5, 10, 15)) 1 2"
  have sa: "next_sum ?A first_path = (1 / 2 ^ 100, 0, 0)"
    and sb: "next_sum ?B first_path = (0, 0, 2)"
    by (simp_all add: next_sum_def sphere_random_def)
  have ta: "tiny (next_sum ?A first_path)" unfolding sa by simp
  have cb: "comfortable (next_sum ?B first_path)" unfolding sb by (simp add: comfy_def)
  let ?nd = "(Fin (1 / 2), Fin (1 / 2))"
  have ha: "hit (path_hit ?A first_path)" and hb: "hit (path_hit ?B first_path)"
    by simp_all
  obtain sta where pa: "path_step ?A ?nd 0 first_path = Next sta"
    using ha by (simp add: path_step_hit)
  obtain stb where pb: "path_step ?B ?nd 0 first_path = Next stb"
    using hb by (simp add: path_step_hit)
  have fa: "rayPos sta = hit_point first_path (path_hit ?A first_path)"
    "gen sta = snd (sampleSphere (random ?A) (gen first_path))"
    "rayDir sta = normalize_vec (fvadd (fvec_of (hit_normal ?A (path_hit ?A first_path)))
        (fvec_of (fst (sampleSphere (random ?A) (gen first_path)))))"
    using next_ray_single_draw [OF ha, where ndcPos = ?nd and did = 0] pa by auto
  have fb: "rayPos stb = hit_point first_path (path_hit ?B first_path)"
    "gen stb = snd (sampleSphere (random ?B) (gen first_path))"
    "comfortable (next_sum ?B first_path) \<longrightarrow>
       rayDir stb = fvec_of (smul (1 / sqrt (vdot (next_sum ?B first_path) (next_sum ?B first_path)))
         (next_sum ?B first_path))"
    using next_ray_single_draw [OF hb, where ndcPos = ?nd and did = 0] pb by auto
  from fb(3) cb have "rayDir stb = fvec_of (smul (1 / sqrt (vdot (next_sum ?B first_path)
      (next_sum ?B first_path))) (next_sum ?B first_path))"
    by blast
  then have db: "rayDir stb = fvec_of (0, 0, 1)"
    unfolding sb by simp
  have da: "rayDir sta = (PInf, NaN, NaN)"
    unfolding fa(3) by (simp add: sphere_random_def normalize_vec_def fl_eval)
  have pos: "hit_point first_path (path_hit ?A first_path) = fvec_of (0, 0, 1)"
    "hit_point first_path (path_hit ?B first_path) = fvec_of (0, 0, 1)"
    by (simp_all add: hit_point_def fl_eval)
  have gens: "snd (sampleSphere (random ?A) (gen first_path)) = 3"
    "snd (sampleSphere (random ?B) (gen first_path)) = 3"
    by (simp_all add: sphere_random_def)
  have a: "case path_step ?A ?nd 0 first_path of
         Break st' \<Rightarrow> False
       | Next st' \<Rightarrow> rayPos st' = fvec_of (0, 0, 1) \<and> rayDir st' = (PInf, NaN, NaN) \<and> gen st' = 3"
    unfolding pa using fa(1,2) da pos(1) gens(1) by simp
  have b: "case path_step ?B ?nd 0 first_path of
         Break st' \<Rightarrow> False
       | Next st' \<Rightarrow> rayPos st' = fvec_of (0, 0, 1) \<and> rayDir st' = fvec_of (0, 0, 1) \<and> gen st' = 3"
    unfolding pb using fb(1,2) db pos(2) gens(2) by simp
  from sa sb ta cb a b ha show ?thesis by simp
qed


section \<open>Radiance that is never negative\<close>

lemma fl_of_nn: "0 \<le> r \<Longrightarrow> chan_nn (fl_of r)"
proof -
  assume a: "0 \<le> r"
  have "0 < flt_over" by (simp add: flt_over_def)
  with a have "\<not> r \<le> - flt_over" by linarith
  with a show ?thesis
    by (auto simp: fl_of_def in_range_def)
qed

lemma chan_nn_pos: "chan_nn a \<Longrightarrow> chan_pos a"
  by (cases a) simp_all

lemma fadd_nn: "chan_pos a \<Longrightarrow> chan_pos b \<Longrightarrow> chan_nn (fadd a b)"
  by (cases a; cases b) (simp_all add: fl_of_nn)

lemma fmul_nn: "chan_pos a \<Longrightarrow> chan_pos b \<Longrightarrow> chan_nn (fmul a b)"
  by (cases a; cases b) (simp_all add: fl_of_nn inf_times_def)

lemma fpow_nn: "chan_pos a \<Longrightarrow> chan_nn (fpow a e)"
  by (cases a) (simp_all add: fl_of_nn)

lemma fmax_zero_pos: "chan_pos (fmax x (Fin 0))"
  by (cases x) (simp_all add: fmax_def)

lemma chan_up_refl [simp]: "chan_up a a"
  by (cases a) simp_all

lemma chan_up_trans: "chan_up a b \<Longrightarrow> chan_up b c \<Longrightarrow> chan_up a c"
  by (cases a; cases b; cases c) simp_all

lemma fadd_up:
  assumes "chan_nn a" and "chan_pos b"
  shows "chan_up a (fadd a b)"
proof (cases a)
  case (Fin x)
  with assms(1) have x: "0 \<le> x" "in_range x" by simp_all
  show ?thesis
  proof (cases b)
    case (Fin z)
    with assms(2) have z: "0 \<le> z" by simp
    have "chan_up (Fin x) (fl_of (x + z))"
    proof (cases "x = 0")
      case True
      with z show ?thesis by (auto simp: fl_of_def)
    next
      case False
      with x have "flt_under < x" by (simp add: in_range_def)
      with z have "\<not> \<bar>x + z\<bar> \<le> flt_under" by simp
      with z show ?thesis by (simp add: fl_of_def)
    qed
    with \<open>a = Fin x\<close> Fin show ?thesis by simp
  qed (simp_all add: \<open>a = Fin x\<close>)
next
  case PInf
  with assms(2) show ?thesis by (cases b) simp_all
next
  case NInf
  with assms(1) show ?thesis by simp
next
  case NaN
  then show ?thesis by simp
qed

lemma color_nn_pos: "color_nn a \<Longrightarrow> color_pos a"
  by (cases a) (simp add: chan_nn_pos)

lemma color_up_refl [simp]: "color_up a a"
  by (cases a) simp

lemma color_up_trans: "color_up a b \<Longrightarrow> color_up b c \<Longrightarrow> color_up a c"
  by (cases a; cases b; cases c) (auto intro: chan_up_trans)

lemma color_add_nn: "color_pos a \<Longrightarrow> color_pos b \<Longrightarrow> color_nn (color_add a b)"
  by (cases a; cases b) (simp add: fadd_nn)

lemma fvadd_nn: "color_pos a \<Longrightarrow> color_pos b \<Longrightarrow> color_nn (fvadd a b)"
  by (cases a; cases b) (simp add: fadd_nn)

lemma color_mul_nn: "color_pos a \<Longrightarrow> color_pos b \<Longrightarrow> color_nn (color_mul a b)"
  by (cases a; cases b) (simp add: fmul_nn)

lemma color_add_up: "color_nn a \<Longrightarrow> color_pos b \<Longrightarrow> color_up a (color_add a b)"
  by (cases a; cases b) (simp add: fadd_up)

lemma color_pow_nn: "nonneg_vec v \<Longrightarrow> color_nn (color_pow (color_of v) e)"
  by (cases v) (simp add: fl_of_nn)

lemma black_nn [simp]: "color_nn black" "color_nn white"
  by (simp_all add: black_def white_def in_range_small)

lemma light_share_pos:
  assumes "nonneg_vec (intensity l)" and "0 \<le> snd (snd (visible l p rc))"
  shows "color_pos (light_share rc p n l)"
proof -
  obtain a b c where i: "intensity l = (a, b, c)" by (cases "intensity l")
  have k: "chan_pos (fmul (Fin (snd (snd (visible l p rc))))
      (fmax (fvdot (fvec_of n) (fvec_of (fst (snd (visible l p rc))))) (Fin 0)))"
  proof (rule chan_nn_pos, rule fmul_nn)
    show "chan_pos (Fin (snd (snd (visible l p rc))))" using assms(2) by simp
    show "chan_pos (fmax (fvdot (fvec_of n) (fvec_of (fst (snd (visible l p rc))))) (Fin 0))"
      by (rule fmax_zero_pos)
  qed
  show ?thesis
    using assms(1) k by (simp add: light_share_def i chan_nn_pos fmul_nn)
qed

lemma fold_light_pos:
  assumes "\<forall>l \<in> set ls. nonneg_vec (intensity l) \<and> (\<forall>p rc. 0 \<le> snd (snd (visible l p rc)))"
    and "color_pos acc"
  shows "color_pos (fold (light_term rc p n) ls acc)"
  using assms
proof (induction ls arbitrary: acc)
  case Nil
  then show ?case by simp
next
  case (Cons l ls)
  from Cons.prems(1) have h: "nonneg_vec (intensity l) \<and> (\<forall>p rc. 0 \<le> snd (snd (visible l p rc)))"
    and r: "\<forall>l \<in> set ls. nonneg_vec (intensity l) \<and> (\<forall>p rc. 0 \<le> snd (snd (visible l p rc)))"
    by (simp_all del: split_paired_All)
  from h have h1: "nonneg_vec (intensity l)" and h2: "0 \<le> snd (snd (visible l p rc))"
    by blast+
  have s: "color_pos (light_share rc p n l)"
    using h1 h2 by (rule light_share_pos)
  have "color_pos (light_term rc p n l acc)"
    using Cons.prems(2) s by (simp add: light_term_eq color_nn_pos fvadd_nn)
  then have "color_pos (fold (light_term rc p n) ls (light_term rc p n l acc))"
    by (rule Cons.IH [OF r])
  then show ?case by simp
qed

lemma illumination_pos:
  "nonneg_inputs sc \<Longrightarrow> color_pos (illumination_at sc rc p n)"
  unfolding illumination_at_def
  by (rule fold_light_pos) (simp_all add: nonneg_inputs_def del: split_paired_All)

lemma path_step_grows:
  assumes n: "nonneg_inputs (scene S)" and ok: "path_ok st" and lt: "did < depth S"
  shows "case path_step S ndcPos did st of Break st' \<Rightarrow> path_grows st st' | Next st' \<Rightarrow> path_grows st st'"
proof (cases "hit (path_hit S st)")
  case False
  with lt have "path_step S ndcPos did st = Break st" by (simp add: path_step_miss)
  with ok show ?thesis by (simp add: path_grows_def)
next
  case True
  have b: "color_nn (hit_baseColor S (path_hit S st))"
    unfolding hit_baseColor_def hit_texel_def
    using n by (intro color_pow_nn) (simp add: nonneg_inputs_def)
  have i: "color_pos (hit_illumination S st (path_hit S st))"
    unfolding hit_illumination_def using n by (rule illumination_pos)
  have a: "color_nn (color_mul (attenColor st) (hit_baseColor S (path_hit S st)))"
    using ok b by (simp add: path_ok_def color_mul_nn color_nn_pos)
  have t: "color_pos (color_mul (color_mul (attenColor st) (hit_baseColor S (path_hit S st)))
      (hit_illumination S st (path_hit S st)))"
  proof (rule color_nn_pos, rule color_mul_nn)
    show "color_pos (color_mul (attenColor st) (hit_baseColor S (path_hit S st)))"
      using a by (rule color_nn_pos)
    show "color_pos (hit_illumination S st (path_hit S st))" by (rule i)
  qed
  have s: "color_up (sampleColor st) (color_add (sampleColor st)
      (color_mul (color_mul (attenColor st) (hit_baseColor S (path_hit S st)))
      (hit_illumination S st (path_hit S st))))"
    using ok t by (simp add: path_ok_def color_add_up)
  have s0: "color_nn (color_add (sampleColor st)
      (color_mul (color_mul (attenColor st) (hit_baseColor S (path_hit S st)))
      (hit_illumination S st (path_hit S st))))"
    using ok t by (simp add: path_ok_def color_add_nn color_nn_pos)
  show ?thesis
    using True a s s0 by (simp add: path_step_hit path_grows_def path_ok_def)
qed

lemma path_grows_trans:
  "path_grows a b \<Longrightarrow> path_grows b c \<Longrightarrow> path_grows a c"
  by (auto simp: path_grows_def intro: color_up_trans)

lemma path_loop_grows:
  assumes n: "nonneg_inputs (scene S)"
  shows "path_ok st \<Longrightarrow> path_grows st (path_loop S ndcPos did st)"
proof (induction "depth S - did" arbitrary: did st)
  case 0
  then show ?case by (simp add: path_loop_stop path_grows_def)
next
  case (Suc k)
  from Suc.hyps(2) have lt: "did < depth S" and k: "k = depth S - Suc did" by simp_all
  have g: "case path_step S ndcPos did st of Break st' \<Rightarrow> path_grows st st' | Next st' \<Rightarrow> path_grows st st'"
    using n Suc.prems lt by (rule path_step_grows)
  show ?case
  proof (cases "path_step S ndcPos did st")
    case (Break st')
    with g lt show ?thesis by (simp add: path_loop_iter)
  next
    case (Next st')
    with g have a: "path_grows st st'" by simp
    then have "path_ok st'" by (simp add: path_grows_def)
    then have "path_grows st' (path_loop S ndcPos (Suc did) st')"
      using k by (intro Suc.hyps(1))
    with a have "path_grows st (path_loop S ndcPos (Suc did) st')"
      by (rule path_grows_trans)
    with Next lt show ?thesis by (simp add: path_loop_iter)
  qed
qed

lemma trace_sample_nn:
  assumes "nonneg_inputs (scene S)"
  shows "color_nn (fst (trace_sample S w h x y g))"
proof -
  have "path_ok (sample_start S w h x y g)"
    by (simp add: path_ok_def sample_start_def)
  then have "path_grows (sample_start S w h x y g)
      (path_loop S (sample_ndcPos S w h x y g) 0 (sample_start S w h x y g))"
    by (rule path_loop_grows [OF assms])
  then show ?thesis by (simp add: trace_sample_start path_grows_def path_ok_def)
qed

lemma image_growsD: "image_grows s t \<Longrightarrow> color_up (rgb (fst s) p) (rgb (fst t) p)"
  unfolding image_grows_def by blast

lemma image_nnD: "image_nn s \<Longrightarrow> color_nn (rgb (fst s) p)"
  unfolding image_nn_def by blast

lemma image_grows_nn: "image_grows s t \<Longrightarrow> image_nn t"
  unfolding image_grows_def by blast

lemma image_grows_refl: "image_nn s \<Longrightarrow> image_grows s s"
  unfolding image_grows_def by simp

lemma image_grows_trans:
  assumes "image_grows s t" and "image_grows t u"
  shows "image_grows s u"
  unfolding image_grows_def
proof
  show "\<forall>p. color_up (rgb (fst s) p) (rgb (fst u) p)"
  proof
    fix p
    have "color_up (rgb (fst s) p) (rgb (fst t) p)" using assms(1) by (rule image_growsD)
    moreover have "color_up (rgb (fst t) p) (rgb (fst u) p)" using assms(2) by (rule image_growsD)
    ultimately show "color_up (rgb (fst s) p) (rgb (fst u) p)" by (rule color_up_trans)
  qed
  show "image_nn u" using assms(2) by (rule image_grows_nn)
qed

lemma shade_sample_grows:
  assumes "nonneg_inputs (scene S)" and "image_nn s"
  shows "image_grows s (shade_sample S y x sid s)"
  unfolding image_grows_def image_nn_def
proof (intro conjI allI)
  fix p
  have c: "color_nn (rgb (fst s) p)" using assms(2) by (rule image_nnD)
  have t: "color_pos (fst (trace_sample S (width (fst s)) (height (fst s)) x y (snd s)))"
    using trace_sample_nn [OF assms(1)] by (rule color_nn_pos)
  show "color_up (rgb (fst s) p) (rgb (fst (shade_sample S y x sid s)) p)"
    using c t by (auto simp: shade_sample_eq color_add_up)
  show "color_nn (rgb (fst (shade_sample S y x sid s)) p)"
    using c t by (auto simp: shade_sample_eq color_add_nn color_nn_pos)
qed

lemma fold_grows:
  assumes step: "\<And>i t. image_nn t \<Longrightarrow> image_grows t (f i t)"
    and ok: "image_nn s"
  shows "image_grows s (fold f xs s)"
  using ok
proof (induction xs arbitrary: s)
  case Nil
  then show ?case by (simp add: image_grows_refl)
next
  case (Cons i xs)
  have a: "image_grows s (f i s)" using Cons.prems by (rule step)
  then have "image_nn (f i s)" by (rule image_grows_nn)
  then have "image_grows (f i s) (fold f xs (f i s))" by (rule Cons.IH)
  with a have "image_grows s (fold f xs (f i s))" by (rule image_grows_trans)
  then show ?case by simp
qed

lemma shade_pixel_grows:
  assumes "nonneg_inputs (scene S)" and "image_nn s"
  shows "image_grows s (shade_pixel S y x s)"
  unfolding shade_pixel_def
  by (rule fold_grows) (simp_all add: assms shade_sample_grows)

lemma shade_row_grows:
  assumes "nonneg_inputs (scene S)" and "image_nn s"
  shows "image_grows s (shade_row S y s)"
  unfolding shade_row_def
  by (rule fold_grows) (simp_all add: assms shade_pixel_grows)

lemma shading_pass_grows:
  assumes "nonneg_inputs (scene S)" and "image_nn s"
  shows "image_grows s (shading_pass S s)"
  unfolding shading_pass_def forParallel_def
  by (rule fold_grows) (simp_all add: assms shade_row_grows)

text \<open>
  Claim C10, as the code has it. With intensities, attenuations and texels that are not
  negative, no channel of a running colour, of a sample or of an accumulator is ever
  negative or minus infinity: it is a finite number from zero up, plus infinity, or NaN
  (\<open>color_nn\<close>). And a channel that is still finite after a bounce, after a sample was
  added to a pixel, or after the shading pass, was finite before and has not gone down
  (\<open>color_up\<close>); so as long as nothing overflows the channels are not negative and never
  decrease.
\<close>

theorem radiance_never_negative:
  assumes "nonneg_inputs (scene S)"
  shows "(path_ok st \<and> did < depth S \<longrightarrow>
        (case path_step S ndcPos did st of
           Break st' \<Rightarrow> color_up (sampleColor st) (sampleColor st') \<and> path_ok st'
         | Next st' \<Rightarrow> color_up (sampleColor st) (sampleColor st') \<and> path_ok st'))
    \<and> color_nn (fst (trace_sample S w h x y g))
    \<and> (color_nn (rgb img p) \<longrightarrow>
         color_up (rgb img p) (rgb (fst (shade_sample S y x sid (img, g))) p)
         \<and> color_nn (rgb (fst (shade_sample S y x sid (img, g))) p))
    \<and> ((\<forall>q. color_nn (rgb img q)) \<longrightarrow>
         color_up (rgb img p) (rgb (fst (shading_pass S (img, g))) p)
         \<and> color_nn (rgb (fst (shading_pass S (img, g))) p))
    \<and> color_nn (rgb (fst (shading_pass S (Image_new w h, g))) p)"
proof -
  have a: "path_ok st \<and> did < depth S \<longrightarrow>
        (case path_step S ndcPos did st of
           Break st' \<Rightarrow> color_up (sampleColor st) (sampleColor st') \<and> path_ok st'
         | Next st' \<Rightarrow> color_up (sampleColor st) (sampleColor st') \<and> path_ok st')"
    using path_step_grows [OF assms, of st did ndcPos]
    by (auto simp: path_grows_def split: flow.splits)
  have b: "color_nn (fst (trace_sample S w h x y g))"
    by (rule trace_sample_nn [OF assms])
  have c: "color_nn (rgb img p) \<longrightarrow>
         color_up (rgb img p) (rgb (fst (shade_sample S y x sid (img, g))) p)
         \<and> color_nn (rgb (fst (shade_sample S y x sid (img, g))) p)"
    using trace_sample_nn [OF assms, of "width img" "height img" x y g]
    by (auto simp: shade_sample_eq color_add_up color_add_nn color_nn_pos)
  have d: "(\<forall>q. color_nn (rgb img q)) \<longrightarrow>
         color_up (rgb img p) (rgb (fst (shading_pass S (img, g))) p)
         \<and> color_nn (rgb (fst (shading_pass S (img, g))) p)"
  proof
    assume "\<forall>q. color_nn (rgb img q)"
    then have "image_nn (img, g)" by (simp add: image_nn_def)
    then have gr: "image_grows (img, g) (shading_pass S (img, g))"
      by (rule shading_pass_grows [OF assms])
    then have "color_up (rgb (fst (img, g)) p) (rgb (fst (shading_pass S (img, g))) p)"
      by (rule image_growsD)
    moreover have "color_nn (rgb (fst (shading_pass S (img, g))) p)"
      using image_grows_nn [OF gr] by (rule image_nnD)
    ultimately show "color_up (rgb img p) (rgb (fst (shading_pass S (img, g))) p)
         \<and> color_nn (rgb (fst (shading_pass S (img, g))) p)" by simp
  qed
  have "image_nn (Image_new w h, g)"
    by (simp add: image_nn_def)
  then have "image_grows (Image_new w h, g) (shading_pass S (Image_new w h, g))"
    by (rule shading_pass_grows [OF assms])
  then have "image_nn (shading_pass S (Image_new w h, g))"
    by (rule image_grows_nn)
  then have e: "color_nn (rgb (fst (shading_pass S (Image_new w h, g))) p)"
    by (rule image_nnD)
  from a b c d e show ?thesis by blast
qed


lemma slab_nonneg:
  assumes "nonneg_vec tex" and "nonneg_vec i" and "0 \<le> k"
  shows "nonneg_inputs (scene (slab_setup r tex (lamp k d i) n dd))"
  using assms by (simp add: nonneg_inputs_def slab_setup_def)

lemma bright_illumination:
  "hit_illumination (slab_setup r tex (lamp 4 (0, 0, 1) (2 ^ 127, 2 ^ 127, 2 ^ 127)) n d) st h
     = (PInf, PInf, PInf)"
  by (simp add: hit_illumination_def illumination_at_def light_term_def Let_def fl_eval)

lemma slab_base_110:
  "hit_baseColor (slab_setup r (1, 1, 0) l n d) h = color_of (1, 1, 0)"
  by (simp add: hit_baseColor_def)

lemma bright_sample:
  "fst (trace_sample (slab_setup r (1, 1, 0) (lamp 4 (0, 0, 1) (2 ^ 127, 2 ^ 127, 2 ^ 127)) n (Suc 0))
      w h x y g) = (PInf, PInf, NaN)"
proof -
  let ?S = "slab_setup r (1, 1, 0) (lamp 4 (0, 0, 1) (2 ^ 127, 2 ^ 127, 2 ^ 127)) n (Suc 0)"
  have "fst (trace_sample ?S w h x y g) =
      radiance [(hit_baseColor ?S (path_hit ?S (sample_start ?S w h x y g)),
                 hit_illumination ?S (sample_start ?S w h x y g) (path_hit ?S (sample_start ?S w h x y g)))]
        white black"
    by (rule depth_one_sample) simp_all
  also have "\<dots> = radiance [(color_of (1, 1, 0), (PInf, PInf, PInf))] white black"
    unfolding bright_illumination slab_base_110 ..
  also have "\<dots> = (PInf, PInf, NaN)"
    by (simp add: white_def black_def fl_eval)
  finally show ?thesis .
qed

lemma slab_sample_234:
  "fst (trace_sample (slab_setup r (2, 3, 4) (lamp (1 / 2) (0, 3 / 5, 4 / 5) (5, 10, 15)) n (Suc 0))
      w h x y g)
     = color_of (2 powr (22 / 10) * 2, 3 powr (22 / 10) * 4, 4 powr (22 / 10) * 6)"
proof -
  have r: "in_range (2 powr (22 / 10))" "in_range (3 powr (22 / 10))" "in_range (4 powr (22 / 10))"
    using in_range_powr22 [of 2 1] in_range_powr22 [of 3 1] in_range_powr22 [of 4 1] by simp_all
  have q: "in_range (2 powr (22 / 10) * 2)" "in_range (3 powr (22 / 10) * 4)"
      "in_range (4 powr (22 / 10) * 6)"
    by (rule in_range_powr22; simp)+
  show ?thesis
    using depth_one_sample [of "slab_setup r (2, 3, 4) (lamp (1 / 2) (0, 3 / 5, 4 / 5) (5, 10, 15)) n (Suc 0)"
        w h x y g]
      radiance_one_real [of "(2 powr (22 / 10), 3 powr (22 / 10), 4 powr (22 / 10))" "(2, 4, 6)"] r q
    by (simp add: slab_base_234 slab_illumination)
qed

text \<open>
  Claim C10 says that with inputs that are not negative every channel of the accumulator
  is not negative and never decreases. Evaluated on the second scene with texel
  \<open>(1, 1, 0)\<close> and a light of attenuation 4 and intensity \<open>2^127\<close>, a finite float, in every
  channel, with one sample and depth 1: the inputs are not negative, the illumination
  \<open>4 * 1 * 2^127\<close> overflows to plus infinity, the throughput of the third channel is 0,
  and the sample is \<open>(inf, inf, NaN)\<close>. The accumulator of the pixel goes from
  \<open>(0, 0, 0)\<close> to \<open>(inf, inf, NaN)\<close>: its third channel is NaN, which is neither at least
  zero nor at least what it was.
\<close>

theorem overflow_leaves_nan:
  "nonneg_inputs (scene (slab_setup half_random (1, 1, 0)
      (lamp 4 (0, 0, 1) (2 ^ 127, 2 ^ 127, 2 ^ 127)) 1 1))
   \<and> in_range (2 ^ 127)
   \<and> hit_illumination (slab_setup half_random (1, 1, 0)
        (lamp 4 (0, 0, 1) (2 ^ 127, 2 ^ 127, 2 ^ 127)) 1 1) first_path no_hit = (PInf, PInf, PInf)
   \<and> fst (trace_sample (slab_setup half_random (1, 1, 0)
        (lamp 4 (0, 0, 1) (2 ^ 127, 2 ^ 127, 2 ^ 127)) 1 1) 1 1 0 0 0) = (PInf, PInf, NaN)
   \<and> rgb (Image_new 1 1) (0, 0) = (Fin 0, Fin 0, Fin 0)
   \<and> rgb (fst (shading_pass (slab_setup half_random (1, 1, 0)
        (lamp 4 (0, 0, 1) (2 ^ 127, 2 ^ 127, 2 ^ 127)) 1 1) (Image_new 1 1, 0))) (0, 0)
       = (PInf, PInf, NaN)"
proof -
  let ?S = "slab_setup half_random (1, 1, 0) (lamp 4 (0, 0, 1) (2 ^ 127, 2 ^ 127, 2 ^ 127)) (Suc 0) (Suc 0)"
  have a: "nonneg_inputs (scene ?S)" by (rule slab_nonneg) simp_all
  have b: "in_range ((2::real) ^ 127)" by (simp add: in_range_def flt_over_def flt_under_def)
  have c: "hit_illumination ?S first_path no_hit = (PInf, PInf, PInf)" by (rule bright_illumination)
  have d: "fst (trace_sample ?S (Suc 0) (Suc 0) 0 0 0) = (PInf, PInf, NaN)" by (rule bright_sample)
  have e: "rgb (Image_new (Suc 0) (Suc 0)) (0, 0) = (Fin 0, Fin 0, Fin 0)" by (simp add: black_def)
  have f: "rgb (fst (shading_pass ?S (Image_new (Suc 0) (Suc 0), 0))) (0, 0) = (PInf, PInf, NaN)"
    using d by (simp add: shading_pass_one_pixel shade_pixel_one_sample shade_sample_eq black_def)
  from a b c d e f show ?thesis by simp
qed

text \<open>
  Claim C10 as amended, on the second scene with texel \<open>(2, 3, 4)\<close> and the light of
  illumination \<open>(2, 4, 6)\<close>, one sample and depth 1: the first bounce, the sample, a sample
  added to an accumulator holding \<open>(4, 8, 12)\<close>, and the shading pass; and on the scene of
  the overflow, whose sample \<open>(inf, inf, NaN)\<close> has no negative channel.
\<close>

theorem radiance_never_negative_witness:
  "nonneg_inputs (scene (slab_setup half_random (2, 3, 4)
      (lamp (1 / 2) (0, 3 / 5, 4 / 5) (5, 10, 15)) 1 1))
   \<and> path_ok (sample_start (slab_setup half_random (2, 3, 4)
        (lamp (1 / 2) (0, 3 / 5, 4 / 5) (5, 10, 15)) 1 1) 1 1 0 0 0)
   \<and> (case path_step (slab_setup half_random (2, 3, 4)
          (lamp (1 / 2) (0, 3 / 5, 4 / 5) (5, 10, 15)) 1 1)
          (sample_ndcPos (slab_setup half_random (2, 3, 4)
            (lamp (1 / 2) (0, 3 / 5, 4 / 5) (5, 10, 15)) 1 1) 1 1 0 0 0) 0
          (sample_start (slab_setup half_random (2, 3, 4)
            (lamp (1 / 2) (0, 3 / 5, 4 / 5) (5, 10, 15)) 1 1) 1 1 0 0 0) of
        Break st' \<Rightarrow> color_up black (sampleColor st') \<and> path_ok st'
      | Next st' \<Rightarrow> color_up black (sampleColor st') \<and> path_ok st')
   \<and> color_nn (fst (trace_sample (slab_setup half_random (2, 3, 4)
        (lamp (1 / 2) (0, 3 / 5, 4 / 5) (5, 10, 15)) 1 1) 1 1 0 0 0))
   \<and> fst (trace_sample (slab_setup half_random (2, 3, 4)
        (lamp (1 / 2) (0, 3 / 5, 4 / 5) (5, 10, 15)) 1 1) 1 1 0 0 0)
       = color_of (2 powr (22 / 10) * 2, 3 powr (22 / 10) * 4, 4 powr (22 / 10) * 6)
   \<and> color_up (color_of (4, 8, 12))
        (rgb (fst (shade_sample (slab_setup half_random (2, 3, 4)
          (lamp (1 / 2) (0, 3 / 5, 4 / 5) (5, 10, 15)) 1 1) 0 0 0
          (Image_new 1 1\<lparr>rgb := (\<lambda>p. color_of (4, 8, 12))\<rparr>, 0))) (0, 0))
   \<and> color_nn (rgb (fst (shade_sample (slab_setup half_random (2, 3, 4)
          (lamp (1 / 2) (0, 3 / 5, 4 / 5) (5, 10, 15)) 1 1) 0 0 0
          (Image_new 1 1\<lparr>rgb := (\<lambda>p. color_of (4, 8, 12))\<rparr>, 0))) (0, 0))
   \<and> color_up (color_of (4, 8, 12))
        (rgb (fst (shading_pass (slab_setup half_random (2, 3, 4)
          (lamp (1 / 2) (0, 3 / 5, 4 / 5) (5, 10, 15)) 1 1)
          (Image_new 1 1\<lparr>rgb := (\<lambda>p. color_of (4, 8, 12))\<rparr>, 0))) (0, 0))
   \<and> color_nn (rgb (fst (shading_pass (slab_setup half_random (2, 3, 4)
          (lamp (1 / 2) (0, 3 / 5, 4 / 5) (5, 10, 15)) 1 1) (Image_new 1 1, 0))) (0, 0))
   \<and> color_nn (fst (trace_sample (slab_setup half_random (1, 1, 0)
        (lamp 4 (0, 0, 1) (2 ^ 127, 2 ^ 127, 2 ^ 127)) 1 1) 1 1 0 0 0))"
proof -
  let ?S = "slab_setup half_random (2, 3, 4) (lamp (1 / 2) (0, 3 / 5, 4 / 5) (5, 10, 15)) (Suc 0) (Suc 0)"
  let ?B = "slab_setup half_random (1, 1, 0) (lamp 4 (0, 0, 1) (2 ^ 127, 2 ^ 127, 2 ^ 127)) (Suc 0) (Suc 0)"
  let ?st = "sample_start ?S (Suc 0) (Suc 0) 0 0 0"
  let ?nd = "sample_ndcPos ?S (Suc 0) (Suc 0) 0 0 0"
  let ?img = "Image_new (Suc 0) (Suc 0)\<lparr>rgb := (\<lambda>p. color_of (4, 8, 12))\<rparr>"
  have n: "nonneg_inputs (scene ?S)" by (rule slab_nonneg) simp_all
  have nb: "nonneg_inputs (scene ?B)" by (rule slab_nonneg) simp_all
  have ok: "path_ok ?st" by (simp add: path_ok_def sample_start_def)
  have sc: "sampleColor ?st = black" by (simp add: sample_start_def)
  have c48: "color_nn (color_of (4, 8, 12))" by (simp add: in_range_small)
  have im: "\<forall>q. color_nn (rgb ?img q)" using c48 by simp
  note T = radiance_never_negative [OF n, where st = ?st and did = 0 and ndcPos = ?nd
      and w = "Suc 0" and h = "Suc 0" and x = 0 and y = 0 and g = 0 and img = ?img
      and p = "(0, 0)" and sid = 0]
  have im0: "color_nn (rgb ?img (0, 0))" using c48 by simp
  have imq: "color_nn (rgb ?img q)" for q using c48 by simp
  have t1: "case path_step ?S ?nd 0 ?st of
        Break st' \<Rightarrow> color_up (sampleColor ?st) (sampleColor st') \<and> path_ok st'
      | Next st' \<Rightarrow> color_up (sampleColor ?st) (sampleColor st') \<and> path_ok st'"
    by (rule T [THEN conjunct1, rule_format]) (simp add: ok)
  have t2: "color_nn (fst (trace_sample ?S (Suc 0) (Suc 0) 0 0 0))"
    by (rule T [THEN conjunct2, THEN conjunct1])
  have t3: "color_up (rgb ?img (0, 0)) (rgb (fst (shade_sample ?S 0 0 0 (?img, 0))) (0, 0))
      \<and> color_nn (rgb (fst (shade_sample ?S 0 0 0 (?img, 0))) (0, 0))"
    using im0 by (rule T [THEN conjunct2, THEN conjunct2, THEN conjunct1, rule_format])
  have t4: "color_up (rgb ?img (0, 0)) (rgb (fst (shading_pass ?S (?img, 0))) (0, 0))
      \<and> color_nn (rgb (fst (shading_pass ?S (?img, 0))) (0, 0))"
    by (rule T [THEN conjunct2, THEN conjunct2, THEN conjunct2, THEN conjunct1, rule_format])
      (rule imq)
  have t5: "color_nn (rgb (fst (shading_pass ?S (Image_new (Suc 0) (Suc 0), 0))) (0, 0))"
    by (rule T [THEN conjunct2, THEN conjunct2, THEN conjunct2, THEN conjunct2])
  have t6: "color_nn (fst (trace_sample ?B (Suc 0) (Suc 0) 0 0 0))"
    using radiance_never_negative [OF nb, where w = "Suc 0" and h = "Suc 0" and x = 0 and y = 0
        and g = 0]
    by blast
  have v: "fst (trace_sample ?S (Suc 0) (Suc 0) 0 0 0)
       = color_of (2 powr (22 / 10) * 2, 3 powr (22 / 10) * 4, 4 powr (22 / 10) * 6)"
    by (rule slab_sample_234)
  from n ok t1 [unfolded sc] t2 t3 t4 t5 t6 v show ?thesis by simp
qed

end
